theory Spec2Isabelle
  imports Complex_Main "HOL-Library.Sublist" "HOL-Library.Word"
begin

section \<open>Happysearch: the search engine front end of \<^verbatim>\<open>Happysearch.py\<close>\<close>

text \<open>
  The development embeds the translator (\<^verbatim>\<open>_wikipedia_results\<close>), the orchestrator
  (\<^verbatim>\<open>search\<close>) and the \<^verbatim>\<open>/api/search\<close> branch of \<^verbatim>\<open>do_GET\<close>, together with the
  standard-library functions they call (\<^verbatim>\<open>str.replace\<close>, \<^verbatim>\<open>str.strip\<close>,
  \<^verbatim>\<open>urllib.parse.quote\<close>, \<^verbatim>\<open>urlencode\<close>, \<^verbatim>\<open>parse_qs\<close>, \<^verbatim>\<open>json.dumps\<close>).
  The network and the clock are inputs: \<^verbatim>\<open>_get_json\<close> is an oracle from the request
  URL to either a failure or the parsed payload, and the two readings of
  \<^verbatim>\<open>time.perf_counter\<close> are parameters of \<^verbatim>\<open>search\<close>.
\<close>

subsection \<open>Python strings\<close>

text \<open>
  A Python \<^verbatim>\<open>str\<close> is a sequence of Unicode code points, here a list of naturals.
  A code point that is not a surrogate is a scalar value; only scalar values can be
  encoded as UTF-8.
\<close>

type_synonym pystr = "nat list"

definition lit :: "string \<Rightarrow> pystr" where
  "lit s = map of_char s"

definition scalar_value :: "nat \<Rightarrow> bool" where
  "scalar_value c \<longleftrightarrow> c < 0xD800 \<or> (0xDFFF < c \<and> c < 0x110000)"

text \<open>Exceptions. Everything \<^verbatim>\<open>_get_json\<close> can raise is a \<open>fetch_failure\<close>.\<close>

datatype fetch_failure = URLError | HTTPError nat | TimeoutError | UnicodeDecodeError | JSONDecodeError

datatype error =
  UnicodeEncodeError | AttributeError | TypeError | IndexError | FetchFailed fetch_failure

text \<open>\<^verbatim>\<open>str.replace(old, new)\<close>: leftmost, non-overlapping occurrences, in one pass.\<close>

fun str_replace :: "pystr \<Rightarrow> pystr \<Rightarrow> pystr \<Rightarrow> pystr" where
  "str_replace old new [] = (if old = [] then new else [])"
| "str_replace old new (c # cs) =
     (if old = [] then new @ c # str_replace old new cs
      else if prefix old (c # cs) then new @ str_replace old new (drop (length old) (c # cs))
      else c # str_replace old new cs)"

text \<open>\<^verbatim>\<open>str(n)\<close> for an integer: decimal digits, with a minus sign when negative.\<close>

fun digits :: "nat \<Rightarrow> pystr" where
  "digits n = (if n < 10 then [48 + n] else digits (n div 10) @ [48 + n mod 10])"

declare digits.simps [simp del]

definition str_int :: "int \<Rightarrow> pystr" where
  "str_int i = (if i < 0 then 45 # digits (nat (- i)) else digits (nat i))"

fun str_join :: "pystr \<Rightarrow> pystr list \<Rightarrow> pystr" where
  "str_join sep [] = []"
| "str_join sep [x] = x"
| "str_join sep (x # y # ys) = x @ sep @ str_join sep (y # ys)"

subsection \<open>\<^verbatim>\<open>urllib.parse.quote\<close>, \<^verbatim>\<open>quote_plus\<close> and \<^verbatim>\<open>urlencode\<close>\<close>

text \<open>
  \<^verbatim>\<open>str.encode('utf-8', 'strict')\<close>: one to four bytes per scalar value,
  \<^verbatim>\<open>UnicodeEncodeError\<close> on a surrogate.
\<close>

definition utf8_char :: "nat \<Rightarrow> error + nat list" where
  "utf8_char c =
     (if c < 0x80 then Inr [c]
      else if c < 0x800 then Inr [0xC0 + c div 0x40, 0x80 + c mod 0x40]
      else if scalar_value c \<and> c < 0x10000 then
        Inr [0xE0 + c div 0x1000, 0x80 + c div 0x40 mod 0x40, 0x80 + c mod 0x40]
      else if scalar_value c then
        Inr [0xF0 + c div 0x40000, 0x80 + c div 0x1000 mod 0x40,
             0x80 + c div 0x40 mod 0x40, 0x80 + c mod 0x40]
      else Inl UnicodeEncodeError)"

fun encode_utf8 :: "pystr \<Rightarrow> error + nat list" where
  "encode_utf8 [] = Inr []"
| "encode_utf8 (c # cs) =
     (case utf8_char c of
        Inl e \<Rightarrow> Inl e
      | Inr bs \<Rightarrow> (case encode_utf8 cs of Inl e \<Rightarrow> Inl e | Inr rest \<Rightarrow> Inr (bs @ rest)))"

text \<open>
  The bytes that are never quoted: ASCII letters, digits and \<^verbatim>\<open>_.-~\<close>. Any other byte
  that is not in \<open>safe\<close> becomes \<^verbatim>\<open>%XX\<close> with upper-case hexadecimal digits.
\<close>

definition always_safe :: "nat \<Rightarrow> bool" where
  "always_safe b \<longleftrightarrow>
     (65 \<le> b \<and> b \<le> 90) \<or> (97 \<le> b \<and> b \<le> 122) \<or> (48 \<le> b \<and> b \<le> 57) \<or>
     b = 95 \<or> b = 46 \<or> b = 45 \<or> b = 126"

definition hex_upper :: "nat \<Rightarrow> nat" where
  "hex_upper n = (if n < 10 then 48 + n else 55 + n)"

definition quote_byte :: "pystr \<Rightarrow> nat \<Rightarrow> pystr" where
  "quote_byte safe b =
     (if always_safe b \<or> (b < 128 \<and> b \<in> set safe) then [b]
      else [37, hex_upper (b div 16), hex_upper (b mod 16)])"

definition quote :: "pystr \<Rightarrow> pystr \<Rightarrow> error + pystr" where
  "quote s safe =
     (case encode_utf8 s of
        Inl e \<Rightarrow> Inl e
      | Inr bs \<Rightarrow> Inr (concat (map (quote_byte safe) bs)))"

definition quote_plus :: "pystr \<Rightarrow> pystr \<Rightarrow> error + pystr" where
  "quote_plus s safe =
     (if 32 \<notin> set s then quote s safe
      else (case quote s (safe @ [32]) of
              Inl e \<Rightarrow> Inl e
            | Inr r \<Rightarrow> Inr (str_replace [32] [43] r)))"

fun urlencode_pairs :: "(pystr \<times> pystr) list \<Rightarrow> error + pystr list" where
  "urlencode_pairs [] = Inr []"
| "urlencode_pairs ((k, v) # rest) =
     (case quote_plus k [] of
        Inl e \<Rightarrow> Inl e
      | Inr k' \<Rightarrow>
          (case quote_plus v [] of
             Inl e \<Rightarrow> Inl e
           | Inr v' \<Rightarrow>
               (case urlencode_pairs rest of
                  Inl e \<Rightarrow> Inl e
                | Inr l \<Rightarrow> Inr ((k' @ [61] @ v') # l))))"

definition urlencode :: "(pystr \<times> pystr) list \<Rightarrow> error + pystr" where
  "urlencode ps = (case urlencode_pairs ps of Inl e \<Rightarrow> Inl e | Inr l \<Rightarrow> Inr (str_join [38] l))"

subsection \<open>Python values\<close>

text \<open>
  What \<^verbatim>\<open>json.loads\<close> returns and \<^verbatim>\<open>json.dumps\<close> accepts. A \<^verbatim>\<open>dict\<close> is an
  association list in insertion order, read with \<open>map_of\<close>; a \<^verbatim>\<open>float\<close> is its
  64 bits.
\<close>

datatype pyval =
    PNone
  | PBool bool
  | PInt int
  | PFloat "64 word"
  | PStr pystr
  | PList "pyval list"
  | PDict "(pystr \<times> pyval) list"

text \<open>\<^verbatim>\<open>x.get(key, default)\<close>: only a \<^verbatim>\<open>dict\<close> has the method.\<close>

fun dict_get :: "pyval \<Rightarrow> pystr \<Rightarrow> pyval \<Rightarrow> error + pyval" where
  "dict_get (PDict kvs) key dflt = Inr (case map_of kvs key of None \<Rightarrow> dflt | Some v \<Rightarrow> v)"
| "dict_get _ key dflt = Inl AttributeError"

text \<open>
  \<^verbatim>\<open>for row in x\<close>: a list yields its elements, a string its characters, a
  \<^verbatim>\<open>dict\<close> its keys; anything else is not iterable.
\<close>

fun py_iter :: "pyval \<Rightarrow> error + pyval list" where
  "py_iter (PList xs) = Inr xs"
| "py_iter (PStr s) = Inr (map (\<lambda>c. PStr [c]) s)"
| "py_iter (PDict kvs) = Inr (map (\<lambda>kv. PStr (fst kv)) kvs)"
| "py_iter _ = Inl TypeError"

subsection \<open>The translator: \<^verbatim>\<open>Happysearch._wikipedia_results\<close>\<close>

record SearchResult =
  title :: pystr
  snippet :: pystr
  url :: pystr

definition span_open :: pystr where
  \<open>span_open = lit ''<span class="searchmatch">''\<close>

definition span_close :: pystr where
  "span_close = lit ''</span>''"

text \<open>The request URL: \<^verbatim>\<open>urlencode\<close> of the six parameters after the fixed endpoint.\<close>

definition api_url :: "pystr \<Rightarrow> int \<Rightarrow> error + pystr" where
  "api_url q limit =
     (case urlencode
             [(lit ''action'', lit ''query''),
              (lit ''list'', lit ''search''),
              (lit ''srsearch'', q),
              (lit ''srlimit'', str_int limit),
              (lit ''utf8'', []),
              (lit ''format'', lit ''json'')] of
        Inl e \<Rightarrow> Inl e
      | Inr params \<Rightarrow> Inr (lit ''https://en.wikipedia.org/w/api.php?'' @ params))"

text \<open>\<^verbatim>\<open>payload.get("query", {}).get("search", [])\<close>, iterated.\<close>

definition payload_rows :: "pyval \<Rightarrow> error + pyval list" where
  "payload_rows payload =
     (case dict_get payload (lit ''query'') (PDict []) of
        Inl e \<Rightarrow> Inl e
      | Inr qv \<Rightarrow>
          (case dict_get qv (lit ''search'') (PList []) of
             Inl e \<Rightarrow> Inl e
           | Inr sv \<Rightarrow> py_iter sv))"

text \<open>
  The body of the loop, lines 57 to 61. \<^verbatim>\<open>snippet.replace\<close> and
  \<^verbatim>\<open>title.replace\<close> raise \<^verbatim>\<open>AttributeError\<close> on anything but a string.
\<close>

definition row_result :: "pyval \<Rightarrow> error + SearchResult" where
  "row_result row =
     (case dict_get row (lit ''title'') (PStr (lit ''Untitled'')) of
        Inl e \<Rightarrow> Inl e
      | Inr tv \<Rightarrow>
          (case dict_get row (lit ''snippet'') (PStr []) of
             Inl e \<Rightarrow> Inl e
           | Inr sv \<Rightarrow>
               (case sv of
                  PStr s \<Rightarrow>
                    (case tv of
                       PStr t \<Rightarrow>
                         (case quote (str_replace [32] [95] t) [47] of
                            Inl e \<Rightarrow> Inl e
                          | Inr enc \<Rightarrow>
                              Inr \<lparr>title = t,
                                   snippet = str_replace span_close [] (str_replace span_open [] s),
                                   url = lit ''https://en.wikipedia.org/wiki/'' @ enc\<rparr>)
                     | _ \<Rightarrow> Inl AttributeError)
                | _ \<Rightarrow> Inl AttributeError)))"

text \<open>The loop: \<open>items\<close> is the list built so far, each result is appended.\<close>

fun collect :: "pyval list \<Rightarrow> SearchResult list \<Rightarrow> error + SearchResult list" where
  "collect [] items = Inr items"
| "collect (row # rows) items =
     (case row_result row of
        Inl e \<Rightarrow> Inl e
      | Inr r \<Rightarrow> collect rows (items @ [r]))"

definition wikipedia_results ::
  "(pystr \<Rightarrow> fetch_failure + pyval) \<Rightarrow> pystr \<Rightarrow> int \<Rightarrow> error + SearchResult list" where
  "wikipedia_results get_json q limit =
     (case api_url q limit of
        Inl e \<Rightarrow> Inl e
      | Inr u \<Rightarrow>
          (case get_json u of
             Inl f \<Rightarrow> Inl (FetchFailed f)
           | Inr payload \<Rightarrow>
               (case payload_rows payload of
                  Inl e \<Rightarrow> Inl e
                | Inr rows \<Rightarrow> collect rows [])))"

subsection \<open>The orchestrator: \<^verbatim>\<open>Happysearch.search\<close>\<close>

text \<open>The two results of the \<^verbatim>\<open>except\<close> branch; \<^verbatim>\<open>quote(query)\<close> may raise there.\<close>

definition fallback_results :: "pystr \<Rightarrow> error + SearchResult list" where
  "fallback_results q =
     (case quote q [47] of
        Inl e \<Rightarrow> Inl e
      | Inr enc1 \<Rightarrow>
          (case quote q [47] of
             Inl e \<Rightarrow> Inl e
           | Inr enc2 \<Rightarrow>
               Inr [\<lparr>title = lit ''Search Wikipedia for: '' @ q,
                     snippet = lit ''Live search source unavailable here, so use this direct Wikipedia query link.'',
                     url = lit ''https://en.wikipedia.org/w/index.php?search='' @ enc1\<rparr>,
                    \<lparr>title = lit ''Search DuckDuckGo for: '' @ q,
                     snippet = lit ''Open web results directly in DuckDuckGo.'',
                     url = lit ''https://duckduckgo.com/?q='' @ enc2\<rparr>]))"

text \<open>\<^verbatim>\<open>int(x)\<close> truncates towards zero.\<close>

definition py_int :: "real \<Rightarrow> int" where
  "py_int x = (if 0 \<le> x then \<lfloor>x\<rfloor> else \<lceil>x\<rceil>)"

text \<open>\<^verbatim>\<open>result.__dict__\<close> of the dataclass.\<close>

definition result_dict :: "SearchResult \<Rightarrow> pyval" where
  "result_dict r =
     PDict [(lit ''title'', PStr (title r)),
            (lit ''snippet'', PStr (snippet r)),
            (lit ''url'', PStr (url r))]"

definition search ::
  "(pystr \<Rightarrow> fetch_failure + pyval) \<Rightarrow> real \<Rightarrow> real \<Rightarrow> pystr \<Rightarrow> error + pyval" where
  "search get_json started finished q =
     (case (case wikipedia_results get_json q 7 of
              Inl e \<Rightarrow> fallback_results q
            | Inr results \<Rightarrow> Inr results) of
        Inl e \<Rightarrow> Inl e
      | Inr results \<Rightarrow>
          Inr (PDict [(lit ''query'', PStr q),
                      (lit ''engine'', PStr (lit ''Happysearch'')),
                      (lit ''elapsed_ms'', PInt (py_int ((finished - started) * 1000))),
                      (lit ''results'', PList (map result_dict results))]))"

subsection \<open>\<^verbatim>\<open>str.strip\<close> and \<^verbatim>\<open>str.split\<close>\<close>

text \<open>The characters \<^verbatim>\<open>str.isspace\<close> accepts, which \<^verbatim>\<open>strip()\<close> removes at both ends.\<close>

definition py_isspace :: "nat \<Rightarrow> bool" where
  "py_isspace c \<longleftrightarrow>
     (9 \<le> c \<and> c \<le> 13) \<or> (28 \<le> c \<and> c \<le> 32) \<or> c = 0x85 \<or> c = 0xA0 \<or> c = 0x1680 \<or>
     (0x2000 \<le> c \<and> c \<le> 0x200A) \<or> c = 0x2028 \<or> c = 0x2029 \<or> c = 0x202F \<or>
     c = 0x205F \<or> c = 0x3000"

definition py_strip :: "pystr \<Rightarrow> pystr" where
  "py_strip s = rev (dropWhile py_isspace (rev (dropWhile py_isspace s)))"

text \<open>\<^verbatim>\<open>s.split(sep)\<close> for a one-character separator: always at least one piece.\<close>

fun split_on :: "nat \<Rightarrow> pystr \<Rightarrow> pystr list" where
  "split_on sep [] = [[]]"
| "split_on sep (c # cs) =
     (if c = sep then [] # split_on sep cs
      else (case split_on sep cs of
              [] \<Rightarrow> [[c]]
            | p # ps \<Rightarrow> (c # p) # ps))"

text \<open>\<^verbatim>\<open>s.split(sep, 1)\<close>: split at the first separator only.\<close>

definition split_first :: "nat \<Rightarrow> pystr \<Rightarrow> pystr list" where
  "split_first sep s =
     (if sep \<in> set s then [takeWhile (\<lambda>c. c \<noteq> sep) s, tl (dropWhile (\<lambda>c. c \<noteq> sep) s)]
      else [s])"

subsection \<open>\<^verbatim>\<open>urllib.parse.unquote\<close>\<close>

definition hexval :: "nat \<Rightarrow> nat option" where
  "hexval c =
     (if 48 \<le> c \<and> c \<le> 57 then Some (c - 48)
      else if 65 \<le> c \<and> c \<le> 70 then Some (c - 55)
      else if 97 \<le> c \<and> c \<le> 102 then Some (c - 87)
      else None)"

text \<open>
  \<^verbatim>\<open>unquote_to_bytes\<close> on an ASCII string: \<^verbatim>\<open>%XX\<close> with two hexadecimal digits is the
  byte \<^verbatim>\<open>XX\<close>, any other \<^verbatim>\<open>%\<close> stays.
\<close>

fun unquote_to_bytes :: "pystr \<Rightarrow> nat list" where
  "unquote_to_bytes [] = []"
| "unquote_to_bytes [c] = [c]"
| "unquote_to_bytes [c, d] = [c, d]"
| "unquote_to_bytes (c # h1 # h2 # rest) =
     (if c = 37 then
        (case (hexval h1, hexval h2) of
           (Some a, Some b) \<Rightarrow> (16 * a + b) # unquote_to_bytes rest
         | _ \<Rightarrow> c # unquote_to_bytes (h1 # h2 # rest))
      else c # unquote_to_bytes (h1 # h2 # rest))"

text \<open>
  \<^verbatim>\<open>bytes.decode('utf-8', 'replace')\<close> as CPython does it: a well-formed sequence is its
  code point; an invalid start byte, or a start byte with the well-formed continuation
  bytes that follow it, is one U+FFFD; so is a sequence cut off by the end of the input.
\<close>

definition continuation :: "nat \<Rightarrow> bool" where
  "continuation b \<longleftrightarrow> 0x80 \<le> b \<and> b \<le> 0xBF"

fun decode_utf8 :: "nat list \<Rightarrow> pystr" where
  "decode_utf8 [] = []"
| "decode_utf8 (b # bs) =
     (if b < 0x80 then b # decode_utf8 bs
      else if b < 0xC2 then 0xFFFD # decode_utf8 bs
      else if b < 0xE0 then
        (case bs of
           [] \<Rightarrow> [0xFFFD]
         | b2 # r2 \<Rightarrow>
             if continuation b2 then ((b - 0xC0) * 0x40 + (b2 - 0x80)) # decode_utf8 r2
             else 0xFFFD # decode_utf8 bs)
      else if b < 0xF0 then
        (case bs of
           [] \<Rightarrow> [0xFFFD]
         | b2 # r2 \<Rightarrow>
             if \<not> continuation b2 \<or> (b = 0xE0 \<and> b2 < 0xA0) \<or> (b = 0xED \<and> 0xA0 \<le> b2)
             then 0xFFFD # decode_utf8 bs
             else
               (case r2 of
                  [] \<Rightarrow> [0xFFFD]
                | b3 # r3 \<Rightarrow>
                    if continuation b3
                    then ((b - 0xE0) * 0x1000 + (b2 - 0x80) * 0x40 + (b3 - 0x80)) # decode_utf8 r3
                    else 0xFFFD # decode_utf8 r2))
      else if b < 0xF5 then
        (case bs of
           [] \<Rightarrow> [0xFFFD]
         | b2 # r2 \<Rightarrow>
             if \<not> continuation b2 \<or> (b = 0xF0 \<and> b2 < 0x90) \<or> (b = 0xF4 \<and> 0x90 \<le> b2)
             then 0xFFFD # decode_utf8 bs
             else
               (case r2 of
                  [] \<Rightarrow> [0xFFFD]
                | b3 # r3 \<Rightarrow>
                    if \<not> continuation b3 then 0xFFFD # decode_utf8 r2
                    else
                      (case r3 of
                         [] \<Rightarrow> [0xFFFD]
                       | b4 # r4 \<Rightarrow>
                           if continuation b4
                           then ((b - 0xF0) * 0x40000 + (b2 - 0x80) * 0x1000 +
                                 (b3 - 0x80) * 0x40 + (b4 - 0x80)) # decode_utf8 r4
                           else 0xFFFD # decode_utf8 r3)))
      else 0xFFFD # decode_utf8 bs)"

declare decode_utf8.simps [simp del]

text \<open>
  \<^verbatim>\<open>unquote(s, encoding='utf-8', errors='replace')\<close>: the maximal runs of ASCII
  characters are unquoted to bytes and decoded, the characters between them are kept.
\<close>

function unquote_runs :: "pystr \<Rightarrow> pystr" where
  "unquote_runs [] = []"
| "unquote_runs (c # cs) =
     (if c < 0x80 then
        decode_utf8 (unquote_to_bytes (takeWhile (\<lambda>x. x < 0x80) (c # cs))) @
        unquote_runs (dropWhile (\<lambda>x. x < 0x80) (c # cs))
      else
        takeWhile (\<lambda>x. \<not> x < 0x80) (c # cs) @
        unquote_runs (dropWhile (\<lambda>x. \<not> x < 0x80) (c # cs)))"
  by pat_completeness auto
termination
  by (relation "measure length") (auto simp: le_imp_less_Suc length_dropWhile_le)

definition unquote :: "pystr \<Rightarrow> pystr" where
  "unquote s = (if 37 \<notin> set s then s else unquote_runs s)"

subsection \<open>\<^verbatim>\<open>urllib.parse.parse_qs\<close>\<close>

text \<open>
  One field of the query string, as \<^verbatim>\<open>parse_qsl\<close> reads it with its defaults
  (\<^verbatim>\<open>keep_blank_values=False\<close>, \<^verbatim>\<open>strict_parsing=False\<close>): an empty field, a field
  without \<^verbatim>\<open>=\<close> and a field with an empty value give no pair.
\<close>

definition parse_field :: "pystr \<Rightarrow> (pystr \<times> pystr) list" where
  "parse_field name_value =
     (if name_value = [] then []
      else (case split_first 61 name_value of
              [n, v] \<Rightarrow>
                if v \<noteq> [] then [(unquote (str_replace [43] [32] n), unquote (str_replace [43] [32] v))]
                else []
            | _ \<Rightarrow> []))"

text \<open>\<^verbatim>\<open>qs.split('&') if qs else []\<close>\<close>

definition query_args :: "pystr \<Rightarrow> pystr list" where
  "query_args qs = (if qs = [] then [] else split_on 38 qs)"

definition parse_qsl :: "pystr \<Rightarrow> (pystr \<times> pystr) list" where
  "parse_qsl qs = concat (map parse_field (query_args qs))"

text \<open>The dictionary of \<^verbatim>\<open>parse_qs\<close>: each name with the list of its values, in order.\<close>

fun dict_append :: "(pystr \<times> pystr list) list \<Rightarrow> pystr \<Rightarrow> pystr \<Rightarrow> (pystr \<times> pystr list) list" where
  "dict_append [] name v = [(name, [v])]"
| "dict_append ((k, vs) # d) name v =
     (if k = name then (k, vs @ [v]) # d else (k, vs) # dict_append d name v)"

fun parse_qs_loop ::
  "(pystr \<times> pystr) list \<Rightarrow> (pystr \<times> pystr list) list \<Rightarrow> (pystr \<times> pystr list) list" where
  "parse_qs_loop [] parsed_result = parsed_result"
| "parse_qs_loop ((name, v) # pairs) parsed_result =
     parse_qs_loop pairs (dict_append parsed_result name v)"

definition parse_qs :: "pystr \<Rightarrow> (pystr \<times> pystr list) list" where
  "parse_qs qs = parse_qs_loop (parse_qsl qs) []"

text \<open>The values a list of pairs holds for a name, in order.\<close>

definition values_of :: "pystr \<Rightarrow> (pystr \<times> pystr) list \<Rightarrow> pystr list" where
  "values_of k pairs = map snd (filter (\<lambda>p. fst p = k) pairs)"

text \<open>
  Two readings of ``the value of the first occurrence of a parameter'' over the fields
  of a query string. The first, in the specification's words, takes the first field
  \<^verbatim>\<open>name=value\<close> with that name, whatever its value; the second skips the fields whose
  value is empty.
\<close>

fun first_occurrence :: "pystr \<Rightarrow> pystr list \<Rightarrow> pystr option" where
  "first_occurrence key [] = None"
| "first_occurrence key (f # fs) =
     (case split_first 61 f of
        [n, v] \<Rightarrow>
          if unquote (str_replace [43] [32] n) = key then Some (unquote (str_replace [43] [32] v))
          else first_occurrence key fs
      | _ \<Rightarrow> first_occurrence key fs)"

fun first_nonblank :: "pystr \<Rightarrow> pystr list \<Rightarrow> pystr option" where
  "first_nonblank key [] = None"
| "first_nonblank key (f # fs) =
     (case split_first 61 f of
        [n, v] \<Rightarrow>
          if v \<noteq> [] \<and> unquote (str_replace [43] [32] n) = key
          then Some (unquote (str_replace [43] [32] v))
          else first_nonblank key fs
      | _ \<Rightarrow> first_nonblank key fs)"

subsection \<open>\<^verbatim>\<open>json.dumps\<close>\<close>

definition hex_lower :: "nat \<Rightarrow> nat" where
  "hex_lower n = (if n < 10 then 48 + n else 87 + n)"

definition u_escape :: "nat \<Rightarrow> pystr" where
  "u_escape n =
     [92, 117, hex_lower (n div 0x1000 mod 16), hex_lower (n div 0x100 mod 16),
      hex_lower (n div 0x10 mod 16), hex_lower (n mod 16)]"

text \<open>
  \<^verbatim>\<open>ensure_ascii\<close> is on: printable ASCII stays, the quote, the backslash and five
  control characters have short escapes, everything else is \<^verbatim>\<open>\uXXXX\<close>, as a surrogate
  pair beyond the basic plane.
\<close>

definition escape_char :: "nat \<Rightarrow> pystr" where
  "escape_char c =
     (if c = 34 then [92, 34]
      else if c = 92 then [92, 92]
      else if c = 10 then [92, 110]
      else if c = 13 then [92, 114]
      else if c = 9 then [92, 116]
      else if c = 8 then [92, 98]
      else if c = 12 then [92, 102]
      else if 32 \<le> c \<and> c \<le> 126 then [c]
      else if c < 0x10000 then u_escape c
      else u_escape (0xD800 + (c - 0x10000) div 0x400 mod 0x400) @
           u_escape (0xDC00 + (c - 0x10000) mod 0x400))"

definition json_string :: "pystr \<Rightarrow> pystr" where
  "json_string s = 34 # concat (map escape_char s) @ [34]"

text \<open>
  \<^verbatim>\<open>json.dumps\<close> with its defaults, for dictionaries with string keys. The text of a
  float is a parameter.
\<close>

fun json_dumps :: "(64 word \<Rightarrow> pystr) \<Rightarrow> pyval \<Rightarrow> pystr" where
  "json_dumps float_repr PNone = lit ''null''"
| "json_dumps float_repr (PBool b) = (if b then lit ''true'' else lit ''false'')"
| "json_dumps float_repr (PInt i) = str_int i"
| "json_dumps float_repr (PFloat w) = float_repr w"
| "json_dumps float_repr (PStr s) = json_string s"
| "json_dumps float_repr (PList xs) =
     [91] @ str_join [44, 32] (map (json_dumps float_repr) xs) @ [93]"
| "json_dumps float_repr (PDict kvs) =
     [123] @ str_join [44, 32]
              (map (\<lambda>kv. json_string (fst kv) @ [58, 32] @ json_dumps float_repr (snd kv)) kvs) @
     [125]"

subsection \<open>The transport layer: \<^verbatim>\<open>HappysearchHandler.do_GET\<close>\<close>

text \<open>
  What \<^verbatim>\<open>do_GET\<close> does with the request: exactly one of \<^verbatim>\<open>_serve_file\<close>,
  \<^verbatim>\<open>_send_json\<close> and \<^verbatim>\<open>send_error\<close> is called.
\<close>

datatype action = Serve_file pystr | Send_json pyval nat | Send_error nat pystr

text \<open>\<^verbatim>\<open>parse_qs(parsed.query).get("q", [""])[0]\<close>\<close>

definition raw_query :: "pystr \<Rightarrow> error + pystr" where
  "raw_query qs =
     (case (case map_of (parse_qs qs) (lit ''q'') of None \<Rightarrow> [[]] | Some vs \<Rightarrow> vs) of
        [] \<Rightarrow> Inl IndexError
      | v # _ \<Rightarrow> Inr v)"

text \<open>
  The request target arrives from \<^verbatim>\<open>http.server\<close> decoded as ISO-8859-1, one
  character per byte, so the two components \<^verbatim>\<open>urlparse\<close> hands over are byte strings.
\<close>

definition do_GET ::
  "(pystr \<Rightarrow> fetch_failure + pyval) \<Rightarrow> real \<Rightarrow> real \<Rightarrow> string \<Rightarrow> string \<Rightarrow> error + action" where
  \<open>do_GET get_json started finished parsed_path parsed_query =
     (if parsed_path = ''/'' \<or> parsed_path = ''/index.html'' then Inr (Serve_file (lit ''index.html''))
      else if parsed_path = ''/api/search'' then
        (case raw_query (lit parsed_query) of
           Inl e \<Rightarrow> Inl e
         | Inr raw \<Rightarrow>
             if py_strip raw = [] then
               Inr (Send_json (PDict [(lit ''error'', PStr (lit ''Query parameter 'q' is required.''))]) 400)
             else
               (case search get_json started finished (py_strip raw) of
                  Inl e \<Rightarrow> Inl e
                | Inr payload \<Rightarrow> Inr (Send_json payload 200)))
      else Inr (Send_error 404 (lit ''Not Found'')))\<close>

text \<open>\<^verbatim>\<open>_send_json\<close>: the status line, the two headers and the body.\<close>

record http_response =
  status :: nat
  headers :: "(pystr \<times> pystr) list"
  body :: pystr

definition send_json :: "(64 word \<Rightarrow> pystr) \<Rightarrow> pyval \<Rightarrow> nat \<Rightarrow> http_response" where
  "send_json float_repr payload st =
     \<lparr>status = st,
      headers = [(lit ''Content-Type'', lit ''application/json; charset=utf-8''),
                 (lit ''Content-Length'', str_int (int (length (json_dumps float_repr payload))))],
      body = json_dumps float_repr payload\<rparr>"

subsection \<open>Concrete environments\<close>

text \<open>An upstream that cannot be reached: every request fails with \<^verbatim>\<open>URLError\<close>.\<close>

definition offline :: "pystr \<Rightarrow> fetch_failure + pyval" where
  "offline u = Inl URLError"

subsection \<open>The snippet without its highlight markers\<close>

text \<open>
  The reference for snippet normalisation, in the specification's words: the raw snippet
  with every occurrence of either marker deleted and every other character kept. Each
  marker holds a single \<^verbatim>\<open><\<close>, its first character, so no two occurrences overlap
  and one left-to-right pass deletes them all.
\<close>

function remove_markers :: "pystr \<Rightarrow> pystr" where
  "remove_markers [] = []"
| "remove_markers (c # cs) =
     (if prefix span_open (c # cs) then remove_markers (drop (length span_open) (c # cs))
      else if prefix span_close (c # cs) then remove_markers (drop (length span_close) (c # cs))
      else c # remove_markers cs)"
  by pat_completeness auto
termination
  by (relation "measure length") (auto simp: span_open_def span_close_def lit_def)

text \<open>
  A snippet in which every \<^verbatim>\<open><\<close> starts a marker, as in the upstream's HTML-escaped
  snippets.
\<close>

fun marked_up :: "pystr \<Rightarrow> bool" where
  "marked_up [] = True"
| "marked_up (c # cs) =
     ((c = 60 \<longrightarrow> prefix span_open (c # cs) \<or> prefix span_close (c # cs)) \<and> marked_up cs)"


text \<open>An upstream whose payload is \<^verbatim>\<open>{"query": null}\<close>.\<close>

definition null_query :: "pystr \<Rightarrow> fetch_failure + pyval" where
  "null_query u = Inr (PDict [(lit ''query'', PNone)])"

text \<open>
  A payload without hits, in the specification's words: a JSON object that has no
  \<^verbatim>\<open>query\<close> member, or whose \<^verbatim>\<open>query\<close> member is an object with no \<^verbatim>\<open>search\<close> member
  or with an empty list there.
\<close>

fun no_hits :: "pyval \<Rightarrow> bool" where
  "no_hits (PDict kvs) =
     (case map_of kvs (lit ''query'') of
        None \<Rightarrow> True
      | Some (PDict qs) \<Rightarrow>
          (case map_of qs (lit ''search'') of
             None \<Rightarrow> True
           | Some (PList []) \<Rightarrow> True
           | Some _ \<Rightarrow> False)
      | Some _ \<Rightarrow> False)"
| "no_hits _ = False"

text \<open>An upstream that answers with an error object and no \<^verbatim>\<open>query\<close> member.\<close>

definition error_only :: "pystr \<Rightarrow> fetch_failure + pyval" where
  "error_only u = Inr (PDict [(lit ''error'', PDict [(lit ''code'', PStr (lit ''badvalue''))])])"

section \<open>Properties\<close>

subsection \<open>Encoding succeeds exactly on scalar values\<close>

lemma utf8_char_scalar: "scalar_value c \<Longrightarrow> \<exists>bs. utf8_char c = Inr bs"
  by (simp add: utf8_char_def)

lemma utf8_char_not_scalar: "\<not> scalar_value c \<Longrightarrow> utf8_char c = Inl UnicodeEncodeError"
  by (auto simp: utf8_char_def scalar_value_def)

lemma utf8_char_error: "utf8_char c = Inl e \<Longrightarrow> e = UnicodeEncodeError \<and> \<not> scalar_value c"
  by (auto simp: utf8_char_def split: if_splits)

lemma encode_utf8_scalar: "\<forall>c\<in>set s. scalar_value c \<Longrightarrow> \<exists>bs. encode_utf8 s = Inr bs"
proof (induction s)
  case Nil
  then show ?case by simp
next
  case (Cons c cs)
  then obtain bs rest where "utf8_char c = Inr bs" "encode_utf8 cs = Inr rest"
    using utf8_char_scalar by fastforce
  then show ?case by simp
qed

lemma encode_utf8_not_scalar:
  "\<exists>c\<in>set s. \<not> scalar_value c \<Longrightarrow> encode_utf8 s = Inl UnicodeEncodeError"
proof (induction s)
  case Nil
  then show ?case by simp
next
  case (Cons c cs)
  show ?case
  proof (cases "scalar_value c")
    case True
    with Cons have "encode_utf8 cs = Inl UnicodeEncodeError" by simp
    then show ?thesis by (auto split: sum.splits dest: utf8_char_error)
  next
    case False
    then show ?thesis by (simp add: utf8_char_not_scalar)
  qed
qed

lemma quote_scalar: "\<forall>c\<in>set s. scalar_value c \<Longrightarrow> \<exists>enc. quote s safe = Inr enc"
  using encode_utf8_scalar [of s] by (auto simp: quote_def)

lemma quote_not_scalar:
  "\<exists>c\<in>set s. \<not> scalar_value c \<Longrightarrow> quote s safe = Inl UnicodeEncodeError"
  by (simp add: quote_def encode_utf8_not_scalar)

lemma quote_plus_scalar:
  "\<forall>c\<in>set s. scalar_value c \<Longrightarrow> \<exists>enc. quote_plus s safe = Inr enc"
  using quote_scalar [of s safe] quote_scalar [of s "safe @ [32]"]
  by (auto simp: quote_plus_def)

lemma quote_plus_not_scalar:
  "\<exists>c\<in>set s. \<not> scalar_value c \<Longrightarrow> quote_plus s safe = Inl UnicodeEncodeError"
  by (simp add: quote_plus_def quote_not_scalar)

lemma of_char_bound: "(of_char ch :: nat) < 256"
proof -
  have "(of_char ch :: nat) mod 256 < 256" by simp
  then show ?thesis by (simp only: of_char_mod_256)
qed

lemma scalar_lit: "\<forall>c\<in>set (lit s). scalar_value c"
proof
  fix c assume "c \<in> set (lit s)"
  then obtain ch where "c = of_char ch" by (auto simp: lit_def)
  then have "c < 256" by (simp add: of_char_bound)
  then show "scalar_value c" by (simp add: scalar_value_def)
qed

lemma api_url_not_scalar:
  "\<exists>c\<in>set q. \<not> scalar_value c \<Longrightarrow> api_url q limit = Inl UnicodeEncodeError"
proof -
  assume bad: "\<exists>c\<in>set q. \<not> scalar_value c"
  obtain a where a: "quote_plus (lit ''action'') [] = Inr a" using quote_plus_scalar scalar_lit by blast
  obtain b where b: "quote_plus (lit ''query'') [] = Inr b" using quote_plus_scalar scalar_lit by blast
  obtain c where c: "quote_plus (lit ''list'') [] = Inr c" using quote_plus_scalar scalar_lit by blast
  obtain d where d: "quote_plus (lit ''search'') [] = Inr d" using quote_plus_scalar scalar_lit by blast
  obtain e where e: "quote_plus (lit ''srsearch'') [] = Inr e" using quote_plus_scalar scalar_lit by blast
  show ?thesis
    by (simp add: api_url_def urlencode_def a b c d e quote_plus_not_scalar [OF bad])
qed

lemma search_not_scalar:
  "\<exists>c\<in>set q. \<not> scalar_value c \<Longrightarrow> search get_json started finished q = Inl UnicodeEncodeError"
  by (simp add: search_def wikipedia_results_def api_url_not_scalar fallback_results_def quote_not_scalar)


lemma digits_scalar: "\<forall>c\<in>set (digits n). scalar_value c"
proof (induction n rule: digits.induct)
  case (1 n)
  show ?case
  proof (cases "n < 10")
    case True
    then show ?thesis by (subst digits.simps) (simp add: scalar_value_def)
  next
    case False
    have "n mod 10 < 10" by simp
    then have "scalar_value (48 + n mod 10)" unfolding scalar_value_def by linarith
    with False 1 show ?thesis by (subst digits.simps) auto
  qed
qed

lemma str_int_scalar: "\<forall>c\<in>set (str_int i). scalar_value c"
  using digits_scalar by (auto simp: str_int_def scalar_value_def)

lemma api_url_scalar:
  assumes "\<forall>c\<in>set q. scalar_value c"
  shows "\<exists>u. api_url q limit = Inr u"
proof -
  obtain a where a: "quote_plus (lit ''action'') [] = Inr a" using quote_plus_scalar scalar_lit by blast
  obtain b where b: "quote_plus (lit ''query'') [] = Inr b" using quote_plus_scalar scalar_lit by blast
  obtain c where c: "quote_plus (lit ''list'') [] = Inr c" using quote_plus_scalar scalar_lit by blast
  obtain d where d: "quote_plus (lit ''search'') [] = Inr d" using quote_plus_scalar scalar_lit by blast
  obtain e where e: "quote_plus (lit ''srsearch'') [] = Inr e" using quote_plus_scalar scalar_lit by blast
  obtain f where f: "quote_plus q [] = Inr f" using quote_plus_scalar assms by blast
  obtain g where g: "quote_plus (lit ''srlimit'') [] = Inr g" using quote_plus_scalar scalar_lit by blast
  obtain h where h: "quote_plus (str_int limit) [] = Inr h" using quote_plus_scalar str_int_scalar by blast
  obtain i where i: "quote_plus (lit ''utf8'') [] = Inr i" using quote_plus_scalar scalar_lit by blast
  obtain j where j: "quote_plus [] [] = Inr j" using quote_plus_scalar [of "[]"] by auto
  obtain k where k: "quote_plus (lit ''format'') [] = Inr k" using quote_plus_scalar scalar_lit by blast
  obtain l where l: "quote_plus (lit ''json'') [] = Inr l" using quote_plus_scalar scalar_lit by blast
  show ?thesis
    by (simp add: api_url_def urlencode_def a b c d e f g h i j k l)
qed


lemma fallback_scalar:
  "\<forall>c\<in>set q. scalar_value c \<Longrightarrow> \<exists>rs. fallback_results q = Inr rs"
  using quote_scalar [of q "[47]"] by (auto simp: fallback_results_def)

subsection \<open>The orchestrator returns for every encodable query\<close>

text \<open>
  C1 (amended). For every query made of Unicode scalar values only (no surrogate code
  point), \<^verbatim>\<open>search\<close> raises nothing, whatever the upstream answers or however it
  fails: it returns a dictionary with exactly the four fields \<^verbatim>\<open>query\<close>,
  \<^verbatim>\<open>engine\<close>, \<^verbatim>\<open>elapsed_ms\<close> and \<^verbatim>\<open>results\<close>.
\<close>

theorem search_total:
  assumes "\<forall>c\<in>set q. scalar_value c"
  shows "\<exists>ms rs. search get_json started finished q =
           Inr (PDict [(lit ''query'', PStr q),
                       (lit ''engine'', PStr (lit ''Happysearch'')),
                       (lit ''elapsed_ms'', PInt ms),
                       (lit ''results'', PList rs)])"
proof (cases "wikipedia_results get_json q 7")
  case (Inl e)
  from fallback_scalar [OF assms] obtain fs where "fallback_results q = Inr fs" ..
  with Inl show ?thesis by (simp add: search_def)
next
  case (Inr items)
  then show ?thesis by (simp add: search_def)
qed

text \<open>The query \<^verbatim>\<open>"rust"\<close> with the upstream unreachable.\<close>

theorem search_total_witness:
  "list_all scalar_value (lit ''rust'') \<and>
   (\<exists>ms rs. search offline 0 1 (lit ''rust'') =
      Inr (PDict [(lit ''query'', PStr (lit ''rust'')),
                  (lit ''engine'', PStr (lit ''Happysearch'')),
                  (lit ''elapsed_ms'', PInt ms),
                  (lit ''results'', PList rs)]))"
  using search_total [of "lit ''rust''" offline 0 1] scalar_lit [of "''rust''"]
  by (simp add: list_all_iff)

text \<open>
  C1 as stated fails: for the one-character query \<^verbatim>\<open>"\ud800"\<close> the translator fails
  in \<^verbatim>\<open>urlencode\<close>, and \<^verbatim>\<open>quote(query)\<close> in the \<^verbatim>\<open>except\<close> branch raises
  \<^verbatim>\<open>UnicodeEncodeError\<close> to the caller.
\<close>

theorem search_raises_on_surrogate:
  "search offline 0 1 [0xD800] = Inl UnicodeEncodeError"
  by (rule search_not_scalar) (simp add: scalar_value_def)

lemma wikipedia_results_offline:
  "\<forall>c\<in>set q. scalar_value c \<Longrightarrow> wikipedia_results offline q limit = Inl (FetchFailed URLError)"
  using api_url_scalar [of q limit] by (auto simp: wikipedia_results_def offline_def)

lemma quote_rust: "quote (lit ''rust'') [47] = Inr (lit ''rust'')"
  by code_simp

lemma search_offline_rust:
  "search offline 0 1 (lit ''rust'') =
     Inr (PDict [(lit ''query'', PStr (lit ''rust'')),
                 (lit ''engine'', PStr (lit ''Happysearch'')),
                 (lit ''elapsed_ms'', PInt 1000),
                 (lit ''results'',
                  PList [PDict [(lit ''title'', PStr (lit ''Search Wikipedia for: rust'')),
                                (lit ''snippet'', PStr (lit ''Live search source unavailable here, so use this direct Wikipedia query link.'')),
                                (lit ''url'', PStr (lit ''https://en.wikipedia.org/w/index.php?search=rust''))],
                         PDict [(lit ''title'', PStr (lit ''Search DuckDuckGo for: rust'')),
                                (lit ''snippet'', PStr (lit ''Open web results directly in DuckDuckGo.'')),
                                (lit ''url'', PStr (lit ''https://duckduckgo.com/?q=rust''))]])])"
proof -
  have "wikipedia_results offline (lit ''rust'') 7 = Inl (FetchFailed URLError)"
    by (rule wikipedia_results_offline) (rule scalar_lit)
  then show ?thesis
    by (simp add: search_def fallback_results_def quote_rust result_dict_def py_int_def)
       (simp add: lit_def)
qed

subsection \<open>The response echoes the query\<close>

text \<open>
  C9. Whenever \<^verbatim>\<open>search(q)\<close> returns, on the live path as on the fallback path, the
  \<^verbatim>\<open>query\<close> field of the response is \<open>q\<close> itself.
\<close>

theorem search_query_verbatim:
  "search get_json started finished q = Inr resp \<Longrightarrow>
   dict_get resp (lit ''query'') PNone = Inr (PStr q)"
  by (auto simp: search_def lit_def split: sum.splits)

theorem search_query_verbatim_witness:
  "(\<exists>resp. search offline 0 1 (lit ''rust'') = Inr resp \<and>
           dict_get resp (lit ''query'') PNone = Inr (PStr (lit ''rust'')))"
  using search_query_verbatim [of offline 0 1 "lit ''rust''"] search_offline_rust by simp

subsection \<open>The translator keeps the upstream's records, in order\<close>




subsection \<open>The fallback results\<close>

text \<open>
  C2 (amended). For every query made of Unicode scalar values only, when the translator
  fails, whatever the failure, \<^verbatim>\<open>search\<close> returns exactly two results: the Wikipedia
  link first and the DuckDuckGo link second, with the titles
  \<^verbatim>\<open>Search Wikipedia for: {query}\<close> and \<^verbatim>\<open>Search DuckDuckGo for: {query}\<close>, and each URL
  is its fixed prefix followed by the percent-encoded query.
\<close>

theorem fallback_two_results:
  assumes "wikipedia_results get_json q 7 = Inl e"
    and "\<forall>c\<in>set q. scalar_value c"
  shows "\<exists>enc ms.
      quote q [47] = Inr enc \<and>
      search get_json started finished q =
        Inr (PDict [(lit ''query'', PStr q),
                    (lit ''engine'', PStr (lit ''Happysearch'')),
                    (lit ''elapsed_ms'', PInt ms),
                    (lit ''results'',
                     PList [PDict [(lit ''title'', PStr (lit ''Search Wikipedia for: '' @ q)),
                                   (lit ''snippet'', PStr (lit ''Live search source unavailable here, so use this direct Wikipedia query link.'')),
                                   (lit ''url'', PStr (lit ''https://en.wikipedia.org/w/index.php?search='' @ enc))],
                            PDict [(lit ''title'', PStr (lit ''Search DuckDuckGo for: '' @ q)),
                                   (lit ''snippet'', PStr (lit ''Open web results directly in DuckDuckGo.'')),
                                   (lit ''url'', PStr (lit ''https://duckduckgo.com/?q='' @ enc))]])])"
proof -
  from quote_scalar [OF assms(2)] obtain enc where "quote q [47] = Inr enc" ..
  with assms(1) show ?thesis
    by (simp add: search_def fallback_results_def result_dict_def)
qed

text \<open>The query \<^verbatim>\<open>"rust"\<close> with the upstream unreachable.\<close>

theorem fallback_two_results_witness:
  "wikipedia_results offline (lit ''rust'') 7 = Inl (FetchFailed URLError) \<and>
   list_all scalar_value (lit ''rust'') \<and>
   (\<exists>enc ms.
      quote (lit ''rust'') [47] = Inr enc \<and>
      search offline 0 1 (lit ''rust'') =
        Inr (PDict [(lit ''query'', PStr (lit ''rust'')),
                    (lit ''engine'', PStr (lit ''Happysearch'')),
                    (lit ''elapsed_ms'', PInt ms),
                    (lit ''results'',
                     PList [PDict [(lit ''title'', PStr (lit ''Search Wikipedia for: '' @ lit ''rust'')),
                                   (lit ''snippet'', PStr (lit ''Live search source unavailable here, so use this direct Wikipedia query link.'')),
                                   (lit ''url'', PStr (lit ''https://en.wikipedia.org/w/index.php?search='' @ enc))],
                            PDict [(lit ''title'', PStr (lit ''Search DuckDuckGo for: '' @ lit ''rust'')),
                                   (lit ''snippet'', PStr (lit ''Open web results directly in DuckDuckGo.'')),
                                   (lit ''url'', PStr (lit ''https://duckduckgo.com/?q='' @ enc))]])]))"
proof -
  have a: "wikipedia_results offline (lit ''rust'') 7 = Inl (FetchFailed URLError)"
    by (rule wikipedia_results_offline) (rule scalar_lit)
  have b: "\<forall>c\<in>set (lit ''rust''). scalar_value c" by (rule scalar_lit)
  from fallback_two_results [OF a b, of 0 1] a b show ?thesis
    by (simp add: list_all_iff)
qed

lemma wikipedia_results_not_scalar:
  "\<exists>c\<in>set q. \<not> scalar_value c \<Longrightarrow> wikipedia_results get_json q limit = Inl UnicodeEncodeError"
  by (simp add: wikipedia_results_def api_url_not_scalar)

text \<open>
  C2 as stated fails: for the query \<^verbatim>\<open>"r\udfff"\<close> the translator fails and
  \<^verbatim>\<open>search\<close> returns no result at all, it raises.
\<close>

theorem fallback_raises_on_surrogate:
  "wikipedia_results offline [0x72, 0xDFFF] 7 = Inl UnicodeEncodeError \<and>
   search offline 0 1 [0x72, 0xDFFF] = Inl UnicodeEncodeError"
  by (simp add: wikipedia_results_not_scalar search_not_scalar scalar_value_def)

subsection \<open>Snippet normalisation\<close>

lemma span_open_Cons: "\<exists>rest. span_open = 60 # 115 # rest"
  by (simp add: span_open_def lit_def)

lemma span_close_Cons: "\<exists>rest. span_close = 60 # 47 # rest"
  by (simp add: span_close_def lit_def)

lemma span_close_tail: "span_close = 60 # [47, 115, 112, 97, 110, 62]"
  by (simp add: span_close_def lit_def)

lemma str_replace_other:
  "old = a # rest \<Longrightarrow> c \<noteq> a \<Longrightarrow> str_replace old new (c # s) = c # str_replace old new s"
  by simp

lemma str_replace_second:
  "old = a # b # rest \<Longrightarrow> b' \<noteq> b \<Longrightarrow>
   str_replace old new (a # b' # s) = a # str_replace old new (b' # s)"
  by simp

lemma str_replace_prefix:
  "old \<noteq> [] \<Longrightarrow> str_replace old new (old @ r) = new @ str_replace old new r"
  by (cases old) simp_all

lemma replace_open_other:
  "c \<noteq> 60 \<Longrightarrow> str_replace span_open [] (c # s) = c # str_replace span_open [] s"
  using span_open_Cons str_replace_other by blast

lemma replace_close_other:
  "c \<noteq> 60 \<Longrightarrow> str_replace span_close [] (c # s) = c # str_replace span_close [] s"
  using span_close_Cons str_replace_other by blast

lemma span_open_nonempty: "span_open \<noteq> []"
  using span_open_Cons by auto

lemma span_close_nonempty: "span_close \<noteq> []"
  using span_close_Cons by auto

lemma replace_open_open:
  "str_replace span_open [] (span_open @ r) = str_replace span_open [] r"
  using str_replace_prefix [OF span_open_nonempty, of "[]" r] by simp

lemma replace_close_close:
  "str_replace span_close [] (span_close @ r) = str_replace span_close [] r"
  using str_replace_prefix [OF span_close_nonempty, of "[]" r] by simp

lemma replace_open_others:
  "\<forall>c\<in>set pre. c \<noteq> 60 \<Longrightarrow>
   str_replace span_open [] (pre @ r) = pre @ str_replace span_open [] r"
  by (induction pre) (simp_all add: replace_open_other del: str_replace.simps)

lemma replace_open_close:
  "str_replace span_open [] (span_close @ r) = span_close @ str_replace span_open [] r"
proof -
  obtain rest where o: "span_open = 60 # 115 # rest" using span_open_Cons by blast
  have "str_replace span_open [] (60 # 47 # [115, 112, 97, 110, 62] @ r) =
        60 # str_replace span_open [] (47 # [115, 112, 97, 110, 62] @ r)"
    by (rule str_replace_second [OF o]) simp
  also have "\<dots> = 60 # [47, 115, 112, 97, 110, 62] @ str_replace span_open [] r"
    using replace_open_others [of "[47, 115, 112, 97, 110, 62]" r] by simp
  finally show ?thesis by (simp add: span_close_tail)
qed

lemma remove_markers_open: "remove_markers (span_open @ r) = remove_markers r"
proof -
  obtain rest where o: "span_open = 60 # 115 # rest" using span_open_Cons by blast
  have "remove_markers (60 # (115 # rest) @ r) =
        remove_markers (drop (length span_open) (60 # (115 # rest) @ r))"
    by (subst remove_markers.simps) (simp add: o)
  then show ?thesis by (simp add: o)
qed

lemma marked_up_drop: "marked_up s \<Longrightarrow> marked_up (drop n s)"
proof (induction s arbitrary: n)
  case Nil
  then show ?case by simp
next
  case (Cons c cs)
  then show ?case by (cases n) simp_all
qed

lemma prefix_split: "prefix p s \<Longrightarrow> s = p @ drop (length p) s"
  by (auto simp: prefix_def)

lemma normalize_marked_up:
  "marked_up s \<Longrightarrow>
   str_replace span_close [] (str_replace span_open [] s) = remove_markers s"
proof (induction s rule: remove_markers.induct)
  case 1
  then show ?case using span_open_nonempty span_close_nonempty by simp
next
  case (2 c cs)
  show ?case
  proof (cases "prefix span_open (c # cs)")
    case True
    define r where "r = drop (length span_open) (c # cs)"
    have s: "c # cs = span_open @ r" unfolding r_def using True by (rule prefix_split)
    have "marked_up r" unfolding r_def using "2.prems" by (rule marked_up_drop)
    then have "str_replace span_close [] (str_replace span_open [] r) = remove_markers r"
      using "2.IH"(1) True r_def by simp
    moreover have "remove_markers (c # cs) = remove_markers r"
      using True r_def by simp
    ultimately show ?thesis
      by (simp only: s replace_open_open)
  next
    case False
    show ?thesis
    proof (cases "prefix span_close (c # cs)")
      case True
      define r where "r = drop (length span_close) (c # cs)"
      have s: "c # cs = span_close @ r" unfolding r_def using True by (rule prefix_split)
      have "marked_up r" unfolding r_def using "2.prems" by (rule marked_up_drop)
      then have "str_replace span_close [] (str_replace span_open [] r) = remove_markers r"
        using "2.IH"(2) False True r_def by simp
      moreover have "remove_markers (c # cs) = remove_markers r"
        using False True r_def by simp
      ultimately show ?thesis
        by (simp only: s replace_open_close replace_close_close)
    next
      case nc: False
      from False nc "2.prems" have c: "c \<noteq> 60" and m: "marked_up cs" by auto
      from "2.IH"(3) False nc m
      have "str_replace span_close [] (str_replace span_open [] cs) = remove_markers cs" by simp
      moreover have "remove_markers (c # cs) = c # remove_markers cs"
        using False nc by simp
      ultimately show ?thesis
        by (simp only: replace_open_other [OF c] replace_close_other [OF c])
    qed
  qed
qed

text \<open>
  C4 (amended). The normalised snippet is the raw snippet with every opening marker
  removed and then every closing marker removed from what is left. For every raw snippet
  in which each \<^verbatim>\<open><\<close> starts one of the two markers this is the raw snippet with every
  occurrence of both markers removed and no other change. A record without a snippet
  gets the empty string, a record without a title gets \<^verbatim>\<open>Untitled\<close>.
\<close>

theorem snippet_normalization:
  assumes "row_result (PDict kvs) = Inr r"
  shows "(\<forall>raw. map_of kvs (lit ''snippet'') = Some (PStr raw) \<longrightarrow>
            snippet r = str_replace span_close [] (str_replace span_open [] raw) \<and>
            (marked_up raw \<longrightarrow> snippet r = remove_markers raw)) \<and>
         (map_of kvs (lit ''snippet'') = None \<longrightarrow> snippet r = []) \<and>
         (map_of kvs (lit ''title'') = None \<longrightarrow> title r = lit ''Untitled'')"
proof -
  have a: "snippet r = str_replace span_close [] (str_replace span_open [] raw)"
    if "map_of kvs (lit ''snippet'') = Some (PStr raw)" for raw
    using assms that by (auto simp: row_result_def split: sum.splits pyval.splits)
  have b: "snippet r = []" if "map_of kvs (lit ''snippet'') = None"
    using assms that span_open_nonempty span_close_nonempty
    by (auto simp: row_result_def split: sum.splits pyval.splits)
  have c: "title r = lit ''Untitled''" if "map_of kvs (lit ''title'') = None"
    using assms that by (auto simp: row_result_def split: sum.splits pyval.splits)
  from a b c show ?thesis by (auto simp: normalize_marked_up)
qed

text \<open>A highlighted snippet without a title, and a title without a snippet.\<close>

theorem snippet_normalization_witness:
  \<open>row_result (PDict [(lit ''snippet'', PStr (lit ''The <span class="searchmatch">Rust</span> language''))]) =
     Inr \<lparr>title = lit ''Untitled'', snippet = lit ''The Rust language'',
          url = lit ''https://en.wikipedia.org/wiki/Untitled''\<rparr> \<and>
   marked_up (lit ''The <span class="searchmatch">Rust</span> language'') \<and>
   remove_markers (lit ''The <span class="searchmatch">Rust</span> language'') = lit ''The Rust language'' \<and>
   row_result (PDict [(lit ''title'', PStr (lit ''Rust''))]) =
     Inr \<lparr>title = lit ''Rust'', snippet = [], url = lit ''https://en.wikipedia.org/wiki/Rust''\<rparr>\<close>
proof -
  let ?raw = \<open>lit ''The <span class="searchmatch">Rust</span> language''\<close>
  let ?kvs = "[(lit ''snippet'', PStr ?raw)]"
  let ?r = "\<lparr>title = lit ''Untitled'', snippet = lit ''The Rust language'',
          url = lit ''https://en.wikipedia.org/wiki/Untitled''\<rparr>"
  have e1: "row_result (PDict ?kvs) = Inr ?r" by code_simp
  have m: "marked_up ?raw" by code_simp
  have k: "map_of ?kvs (lit ''snippet'') = Some (PStr ?raw)" by simp
  from snippet_normalization [OF e1] k m have "snippet ?r = remove_markers ?raw" by blast
  then have e2: "remove_markers ?raw = lit ''The Rust language''" by simp
  have e3: "row_result (PDict [(lit ''title'', PStr (lit ''Rust''))]) =
     Inr \<lparr>title = lit ''Rust'', snippet = [], url = lit ''https://en.wikipedia.org/wiki/Rust''\<rparr>"
    by code_simp
  from e1 m e2 e3 show ?thesis by blast
qed

text \<open>
  C4 as stated fails: the snippet below holds one opening marker and no closing marker,
  yet removing the opening marker joins \<^verbatim>\<open></sp\<close> and \<^verbatim>\<open>an>\<close> into a closing marker,
  which the second \<^verbatim>\<open>replace\<close> removes too: seven characters outside every marker
  of the raw snippet are lost.
\<close>

theorem snippet_sequential_removal:
  \<open>row_result (PDict [(lit ''snippet'', PStr (lit ''</sp<span class="searchmatch">an>''))]) =
     Inr \<lparr>title = lit ''Untitled'', snippet = [],
          url = lit ''https://en.wikipedia.org/wiki/Untitled''\<rparr> \<and>
   remove_markers (lit ''</sp<span class="searchmatch">an>'') = lit ''</span>''\<close>
  by (rule conjI; code_simp)

subsection \<open>The article URL\<close>

text \<open>
  C5. For every record that converts, the title of the result is the record's title
  (\<^verbatim>\<open>Untitled\<close> when it has none) and the URL is \<^verbatim>\<open>https://en.wikipedia.org/wiki/\<close>
  followed by the title with every space replaced by an underscore and then
  percent-encoded. The title \<^verbatim>\<open>C++\<close> gives \<^verbatim>\<open>/wiki/C%2B%2B\<close>; in
  \<^verbatim>\<open>Rust (programming language)\<close> the spaces become underscores, not \<^verbatim>\<open>%20\<close>.
\<close>

theorem article_url:
  "(\<forall>row r. row_result row = Inr r \<longrightarrow>
      dict_get row (lit ''title'') (PStr (lit ''Untitled'')) = Inr (PStr (title r)) \<and>
      (\<exists>enc. quote (str_replace [32] [95] (title r)) [47] = Inr enc \<and>
             url r = lit ''https://en.wikipedia.org/wiki/'' @ enc)) \<and>
   (\<exists>r. row_result (PDict [(lit ''title'', PStr (lit ''C++''))]) = Inr r \<and>
        url r = lit ''https://en.wikipedia.org/wiki/C%2B%2B'') \<and>
   (\<exists>r. row_result (PDict [(lit ''title'', PStr (lit ''Rust (programming language)''))]) = Inr r \<and>
        url r = lit ''https://en.wikipedia.org/wiki/Rust_%28programming_language%29'')"
proof -
  have a: "dict_get row (lit ''title'') (PStr (lit ''Untitled'')) = Inr (PStr (title r)) \<and>
      (\<exists>enc. quote (str_replace [32] [95] (title r)) [47] = Inr enc \<and>
             url r = lit ''https://en.wikipedia.org/wiki/'' @ enc)"
    if "row_result row = Inr r" for row r
    using that by (auto simp: row_result_def split: sum.splits pyval.splits)
  have b: "row_result (PDict [(lit ''title'', PStr (lit ''C++''))]) =
     Inr \<lparr>title = lit ''C++'', snippet = [], url = lit ''https://en.wikipedia.org/wiki/C%2B%2B''\<rparr>"
    by code_simp
  have c: "row_result (PDict [(lit ''title'', PStr (lit ''Rust (programming language)''))]) =
     Inr \<lparr>title = lit ''Rust (programming language)'', snippet = [],
          url = lit ''https://en.wikipedia.org/wiki/Rust_%28programming_language%29''\<rparr>"
    by code_simp
  from a b c show ?thesis by simp
qed

text \<open>The record \<^verbatim>\<open>{"title": "C++"}\<close>.\<close>

theorem article_url_witness:
  "row_result (PDict [(lit ''title'', PStr (lit ''C++''))]) =
     Inr \<lparr>title = lit ''C++'', snippet = [], url = lit ''https://en.wikipedia.org/wiki/C%2B%2B''\<rparr> \<and>
   quote (str_replace [32] [95] (lit ''C++'')) [47] = Inr (lit ''C%2B%2B'')"
proof -
  let ?r = "\<lparr>title = lit ''C++'', snippet = [], url = lit ''https://en.wikipedia.org/wiki/C%2B%2B''\<rparr>"
  have b: "row_result (PDict [(lit ''title'', PStr (lit ''C++''))]) = Inr ?r"
    by code_simp
  from article_url b
  obtain enc where "quote (str_replace [32] [95] (title ?r)) [47] = Inr enc"
    and "url ?r = lit ''https://en.wikipedia.org/wiki/'' @ enc" by blast
  then have "quote (str_replace [32] [95] (lit ''C++'')) [47] = Inr (lit ''C%2B%2B'')"
    by (simp add: lit_def)
  with b show ?thesis by simp
qed

subsection \<open>No hits is a success, and the fallback is never empty\<close>

lemma search_fallback:
  assumes "wikipedia_results get_json q 7 = Inl e" and "quote q [47] = Inr enc"
  shows "search get_json started finished q =
        Inr (PDict [(lit ''query'', PStr q),
                    (lit ''engine'', PStr (lit ''Happysearch'')),
                    (lit ''elapsed_ms'', PInt (py_int ((finished - started) * 1000))),
                    (lit ''results'',
                     PList [PDict [(lit ''title'', PStr (lit ''Search Wikipedia for: '' @ q)),
                                   (lit ''snippet'', PStr (lit ''Live search source unavailable here, so use this direct Wikipedia query link.'')),
                                   (lit ''url'', PStr (lit ''https://en.wikipedia.org/w/index.php?search='' @ enc))],
                            PDict [(lit ''title'', PStr (lit ''Search DuckDuckGo for: '' @ q)),
                                   (lit ''snippet'', PStr (lit ''Open web results directly in DuckDuckGo.'')),
                                   (lit ''url'', PStr (lit ''https://duckduckgo.com/?q='' @ enc))]])])"
  using assms by (simp add: search_def fallback_results_def result_dict_def)

lemma search_live:
  assumes "wikipedia_results get_json q 7 = Inr items"
  shows "search get_json started finished q =
        Inr (PDict [(lit ''query'', PStr q),
                    (lit ''engine'', PStr (lit ''Happysearch'')),
                    (lit ''elapsed_ms'', PInt (py_int ((finished - started) * 1000))),
                    (lit ''results'', PList (map result_dict items))])"
  using assms by (simp add: search_def)

lemma no_hits_rows:
  assumes "no_hits payload"
  shows "payload_rows payload = Inr []"
proof (cases payload)
  case (PDict kvs)
  show ?thesis
  proof (cases "map_of kvs (lit ''query'')")
    case None
    with PDict show ?thesis by (simp add: payload_rows_def)
  next
    case (Some qv)
    with assms PDict obtain qs where qv: "qv = PDict qs"
      by (cases qv) simp_all
    show ?thesis
    proof (cases "map_of qs (lit ''search'')")
      case None
      with PDict Some qv show ?thesis by (simp add: payload_rows_def)
    next
      case sv: (Some sv)
      with assms PDict Some qv obtain xs where xs: "sv = PList xs"
        by (cases sv) simp_all
      with assms PDict Some qv sv have "xs = []"
        by (cases xs) simp_all
      with PDict Some qv sv xs show ?thesis by (simp add: payload_rows_def)
    qed
  qed
qed (use assms in simp_all)

lemma lit_eq_iff [simp]: "lit a = lit b \<longleftrightarrow> a = b"
  by (simp add: lit_def inj_map_eq_map inj_of_char)

lemma key_results: "map_of [(lit ''query'', a), (lit ''engine'', b), (lit ''elapsed_ms'', c), (lit ''results'', d)] (lit ''results'') = Some d"
  by (simp add: lit_def)



text \<open>
  C6 (amended). When the upstream answers with a JSON object that has no \<^verbatim>\<open>query\<close>
  member, or whose \<^verbatim>\<open>query\<close> member is an object with no \<^verbatim>\<open>search\<close> member or an
  empty list there, \<^verbatim>\<open>_wikipedia_results\<close> returns the empty list as a success and
  \<^verbatim>\<open>search\<close> returns a response whose results are empty. In the fallback branch the
  results have exactly two entries.
\<close>

theorem no_hits_empty_results:
  "(api_url q 7 = Inr u \<and> get_json u = Inr payload \<and> no_hits payload \<longrightarrow>
      wikipedia_results get_json q 7 = Inr [] \<and>
      (\<exists>ms. search get_json started finished q =
         Inr (PDict [(lit ''query'', PStr q),
                     (lit ''engine'', PStr (lit ''Happysearch'')),
                     (lit ''elapsed_ms'', PInt ms),
                     (lit ''results'', PList [])]))) \<and>
   (wikipedia_results get_json' q' 7 = Inl e \<and> search get_json' started' finished' q' = Inr resp \<longrightarrow>
      (\<exists>a b. dict_get resp (lit ''results'') PNone = Inr (PList [a, b])))"
proof (intro conjI impI)
  assume a: "api_url q 7 = Inr u \<and> get_json u = Inr payload \<and> no_hits payload"
  then show w: "wikipedia_results get_json q 7 = Inr []"
    by (simp add: wikipedia_results_def no_hits_rows)
  show "\<exists>ms. search get_json started finished q =
         Inr (PDict [(lit ''query'', PStr q),
                     (lit ''engine'', PStr (lit ''Happysearch'')),
                     (lit ''elapsed_ms'', PInt ms),
                     (lit ''results'', PList [])])"
    using search_live [OF w] by simp
next
  assume b: "wikipedia_results get_json' q' 7 = Inl e \<and> search get_json' started' finished' q' = Inr resp"
  then obtain fs where f: "fallback_results q' = Inr fs"
    by (auto simp: search_def split: sum.splits)
  then obtain enc where "quote q' [47] = Inr enc"
    by (auto simp: fallback_results_def split: sum.splits)
  from search_fallback [OF conjunct1 [OF b] this, of started' finished'] conjunct2 [OF b]
  have "resp = PDict [(lit ''query'', PStr q'),
                    (lit ''engine'', PStr (lit ''Happysearch'')),
                    (lit ''elapsed_ms'', PInt (py_int ((finished' - started') * 1000))),
                    (lit ''results'',
                     PList [PDict [(lit ''title'', PStr (lit ''Search Wikipedia for: '' @ q')),
                                   (lit ''snippet'', PStr (lit ''Live search source unavailable here, so use this direct Wikipedia query link.'')),
                                   (lit ''url'', PStr (lit ''https://en.wikipedia.org/w/index.php?search='' @ enc))],
                            PDict [(lit ''title'', PStr (lit ''Search DuckDuckGo for: '' @ q')),
                                   (lit ''snippet'', PStr (lit ''Open web results directly in DuckDuckGo.'')),
                                   (lit ''url'', PStr (lit ''https://duckduckgo.com/?q='' @ enc))]])]"
    by simp
  then show "\<exists>a b. dict_get resp (lit ''results'') PNone = Inr (PList [a, b])"
    by (simp only: dict_get.simps key_results option.case) blast
qed

text \<open>An error object from the upstream, and an upstream that cannot be reached.\<close>

theorem no_hits_empty_results_witness:
  "no_hits (PDict [(lit ''error'', PDict [(lit ''code'', PStr (lit ''badvalue''))])]) \<and>
   wikipedia_results error_only (lit ''rust'') 7 = Inr [] \<and>
   (\<exists>ms. search error_only 0 1 (lit ''rust'') =
         Inr (PDict [(lit ''query'', PStr (lit ''rust'')),
                     (lit ''engine'', PStr (lit ''Happysearch'')),
                     (lit ''elapsed_ms'', PInt ms),
                     (lit ''results'', PList [])])) \<and>
   wikipedia_results offline (lit ''rust'') 7 = Inl (FetchFailed URLError) \<and>
   (\<exists>resp a b. search offline 0 1 (lit ''rust'') = Inr resp \<and>
      dict_get resp (lit ''results'') PNone = Inr (PList [a, b]))"
proof -
  obtain u where u: "api_url (lit ''rust'') 7 = Inr u"
    using api_url_scalar [OF scalar_lit] by blast
  have p: "error_only u = Inr (PDict [(lit ''error'', PDict [(lit ''code'', PStr (lit ''badvalue''))])])"
    by (simp add: error_only_def)
  have n: "no_hits (PDict [(lit ''error'', PDict [(lit ''code'', PStr (lit ''badvalue''))])])"
    by code_simp
  have f: "wikipedia_results offline (lit ''rust'') 7 = Inl (FetchFailed URLError)"
    by (rule wikipedia_results_offline) (rule scalar_lit)
  have s: "\<exists>resp. search offline 0 1 (lit ''rust'') = Inr resp"
    using search_offline_rust by simp
  from no_hits_empty_results [of "lit ''rust''" u error_only _ 0 1 offline "lit ''rust''" "FetchFailed URLError" 0 1]
    u p n f s
  show ?thesis by blast
qed


text \<open>
  C6 as stated fails: the payload \<^verbatim>\<open>{"query": null}\<close> parses and has no
  \<^verbatim>\<open>query.search\<close> field, yet \<^verbatim>\<open>None.get\<close> raises \<^verbatim>\<open>AttributeError\<close>: the translator
  fails and \<^verbatim>\<open>search\<close> returns the two fallback results, not an empty list.
\<close>

theorem null_query_is_failure:
  "wikipedia_results null_query (lit ''rust'') 7 = Inl AttributeError \<and>
   search null_query 0 1 (lit ''rust'') =
     Inr (PDict [(lit ''query'', PStr (lit ''rust'')),
                 (lit ''engine'', PStr (lit ''Happysearch'')),
                 (lit ''elapsed_ms'', PInt 1000),
                 (lit ''results'',
                  PList [PDict [(lit ''title'', PStr (lit ''Search Wikipedia for: rust'')),
                                (lit ''snippet'', PStr (lit ''Live search source unavailable here, so use this direct Wikipedia query link.'')),
                                (lit ''url'', PStr (lit ''https://en.wikipedia.org/w/index.php?search=rust''))],
                         PDict [(lit ''title'', PStr (lit ''Search DuckDuckGo for: rust'')),
                                (lit ''snippet'', PStr (lit ''Open web results directly in DuckDuckGo.'')),
                                (lit ''url'', PStr (lit ''https://duckduckgo.com/?q=rust''))]])])"
proof -
  obtain u where u: "api_url (lit ''rust'') 7 = Inr u"
    using api_url_scalar [OF scalar_lit] by blast
  have r: "payload_rows (PDict [(lit ''query'', PNone)]) = Inl AttributeError"
    by (simp add: payload_rows_def)
  have w: "wikipedia_results null_query (lit ''rust'') 7 = Inl AttributeError"
    using u r by (simp add: wikipedia_results_def null_query_def)
  from search_fallback [OF w quote_rust, of 0 1] w show ?thesis
    by (simp add: py_int_def) (simp add: lit_def)
qed

subsection \<open>Elapsed time and engine name\<close>



subsection \<open>The transport layer hands over encodable queries\<close>

lemma decode_step:
  "\<exists>x rest. scalar_value x \<and> length rest \<le> length bs \<and>
     (decode_utf8 (b # bs) = [x] \<or> decode_utf8 (b # bs) = x # decode_utf8 rest)"
proof -
  have fffd: "scalar_value 0xFFFD" by (simp add: scalar_value_def)
  have A: ?thesis
    if "decode_utf8 (b # bs) = x # decode_utf8 rest" "scalar_value x" "length rest \<le> length bs"
    for x rest using that by blast
  have B: ?thesis if "decode_utf8 (b # bs) = [x]" "scalar_value x" for x
    using that by blast
  consider (ascii) "b < 0x80" | (bad) "0x80 \<le> b \<and> b < 0xC2 \<or> 0xF5 \<le> b"
    | (two) "0xC2 \<le> b \<and> b < 0xE0" | (three) "0xE0 \<le> b \<and> b < 0xF0"
    | (four) "0xF0 \<le> b \<and> b < 0xF5" by linarith
  then show ?thesis
  proof cases
    case ascii
    then have "decode_utf8 (b # bs) = b # decode_utf8 bs"
      by (subst decode_utf8.simps(2)) simp
    moreover have "scalar_value b" using ascii by (simp add: scalar_value_def)
    ultimately show ?thesis by (rule A) simp
  next
    case bad
    then have "decode_utf8 (b # bs) = 0xFFFD # decode_utf8 bs"
      by (subst decode_utf8.simps(2)) auto
    then show ?thesis by (rule A) (simp_all add: fffd)
  next
    case two
    show ?thesis
    proof (cases bs)
      case Nil
      with two have "decode_utf8 (b # bs) = [0xFFFD]"
        by (subst decode_utf8.simps(2)) simp
      then show ?thesis by (rule B) (rule fffd)
    next
      case (Cons b2 r2)
      show ?thesis
      proof (cases "continuation b2")
        case True
        have s: "scalar_value ((b - 0xC0) * 0x40 + (b2 - 0x80))"
          using two True unfolding scalar_value_def continuation_def by linarith
        from two Cons True
        have "decode_utf8 (b # bs) = ((b - 0xC0) * 0x40 + (b2 - 0x80)) # decode_utf8 r2"
          by (subst decode_utf8.simps(2)) simp
        then show ?thesis by (rule A) (simp_all add: s Cons)
      next
        case False
        with two Cons have "decode_utf8 (b # bs) = 0xFFFD # decode_utf8 bs"
          by (subst decode_utf8.simps(2)) simp
        then show ?thesis by (rule A) (simp_all add: fffd)
      qed
    qed
  next
    case three
    show ?thesis
    proof (cases bs)
      case Nil
      with three have "decode_utf8 (b # bs) = [0xFFFD]"
        by (subst decode_utf8.simps(2)) simp
      then show ?thesis by (rule B) (rule fffd)
    next
      case (Cons b2 r2)
      show ?thesis
      proof (cases "\<not> continuation b2 \<or> (b = 0xE0 \<and> b2 < 0xA0) \<or> (b = 0xED \<and> 0xA0 \<le> b2)")
        case True
        with three Cons have "decode_utf8 (b # bs) = 0xFFFD # decode_utf8 bs"
          by (subst decode_utf8.simps(2)) (simp del: de_Morgan_conj de_Morgan_disj not_less not_le)
        then show ?thesis by (rule A) (simp_all add: fffd)
      next
        case ok: False
        show ?thesis
        proof (cases r2)
          case Nil
          with three Cons ok have "decode_utf8 (b # bs) = [0xFFFD]"
            by (subst decode_utf8.simps(2)) (simp del: de_Morgan_conj de_Morgan_disj not_less not_le)
          then show ?thesis by (rule B) (rule fffd)
        next
          case r2: (Cons b3 r3)
          show ?thesis
          proof (cases "continuation b3")
            case True
            have s: "scalar_value ((b - 0xE0) * 0x1000 + (b2 - 0x80) * 0x40 + (b3 - 0x80))"
            proof -
              consider "b \<le> 0xEC" | "b = 0xED" "b2 < 0xA0" | "0xEE \<le> b"
                using ok by linarith
              then show ?thesis
                using three ok True unfolding scalar_value_def continuation_def
                by cases linarith+
            qed
            from three Cons ok r2 True
            have "decode_utf8 (b # bs) =
                  ((b - 0xE0) * 0x1000 + (b2 - 0x80) * 0x40 + (b3 - 0x80)) # decode_utf8 r3"
              by (subst decode_utf8.simps(2)) (simp del: de_Morgan_conj de_Morgan_disj not_less not_le)
            then show ?thesis by (rule A) (simp_all add: s Cons r2)
          next
            case False
            with three Cons ok r2 have "decode_utf8 (b # bs) = 0xFFFD # decode_utf8 r2"
              by (subst decode_utf8.simps(2)) (simp del: de_Morgan_conj de_Morgan_disj not_less not_le)
            then show ?thesis by (rule A) (simp_all add: fffd Cons)
          qed
        qed
      qed
    qed
  next
    case four
    show ?thesis
    proof (cases bs)
      case Nil
      with four have "decode_utf8 (b # bs) = [0xFFFD]"
        by (subst decode_utf8.simps(2)) simp
      then show ?thesis by (rule B) (rule fffd)
    next
      case (Cons b2 r2)
      show ?thesis
      proof (cases "\<not> continuation b2 \<or> (b = 0xF0 \<and> b2 < 0x90) \<or> (b = 0xF4 \<and> 0x90 \<le> b2)")
        case True
        with four Cons have "decode_utf8 (b # bs) = 0xFFFD # decode_utf8 bs"
          by (subst decode_utf8.simps(2)) (simp del: de_Morgan_conj de_Morgan_disj not_less not_le)
        then show ?thesis by (rule A) (simp_all add: fffd)
      next
        case ok: False
        show ?thesis
        proof (cases r2)
          case Nil
          with four Cons ok have "decode_utf8 (b # bs) = [0xFFFD]"
            by (subst decode_utf8.simps(2)) (simp del: de_Morgan_conj de_Morgan_disj not_less not_le)
          then show ?thesis by (rule B) (rule fffd)
        next
          case r2: (Cons b3 r3)
          show ?thesis
          proof (cases "continuation b3")
            case False
            with four Cons ok r2 have "decode_utf8 (b # bs) = 0xFFFD # decode_utf8 r2"
              by (subst decode_utf8.simps(2)) (simp del: de_Morgan_conj de_Morgan_disj not_less not_le)
            then show ?thesis by (rule A) (simp_all add: fffd Cons)
          next
            case c3: True
            show ?thesis
            proof (cases r3)
              case Nil
              with four Cons ok r2 c3 have "decode_utf8 (b # bs) = [0xFFFD]"
                by (subst decode_utf8.simps(2)) (simp del: de_Morgan_conj de_Morgan_disj not_less not_le)
              then show ?thesis by (rule B) (rule fffd)
            next
              case r3: (Cons b4 r4)
              show ?thesis
              proof (cases "continuation b4")
                case True
                have s: "scalar_value ((b - 0xF0) * 0x40000 + (b2 - 0x80) * 0x1000 +
                                 (b3 - 0x80) * 0x40 + (b4 - 0x80))"
                proof -
                  consider "b = 0xF0" "0x90 \<le> b2" | "0xF1 \<le> b" "b \<le> 0xF3" | "b = 0xF4" "b2 < 0x90"
                    using four ok by linarith
                  then show ?thesis
                    using four ok c3 True unfolding scalar_value_def continuation_def
                    by cases linarith+
                qed
                from four Cons ok r2 c3 r3 True
                have "decode_utf8 (b # bs) =
                      ((b - 0xF0) * 0x40000 + (b2 - 0x80) * 0x1000 +
                                 (b3 - 0x80) * 0x40 + (b4 - 0x80)) # decode_utf8 r4"
                  by (subst decode_utf8.simps(2)) (simp del: de_Morgan_conj de_Morgan_disj not_less not_le)
                then show ?thesis by (rule A) (simp_all add: s Cons r2 r3)
              next
                case False
                with four Cons ok r2 c3 r3 have "decode_utf8 (b # bs) = 0xFFFD # decode_utf8 r3"
                  by (subst decode_utf8.simps(2)) (simp del: de_Morgan_conj de_Morgan_disj not_less not_le)
                then show ?thesis by (rule A) (simp_all add: fffd Cons r2)
              qed
            qed
          qed
        qed
      qed
    qed
  qed
qed

lemma decode_utf8_scalar: "\<forall>c\<in>set (decode_utf8 bs). scalar_value c"
proof (induction bs rule: length_induct)
  case (1 bs)
  show ?case
  proof (cases bs)
    case Nil
    then show ?thesis by (simp add: decode_utf8.simps(1))
  next
    case (Cons b r)
    from decode_step [of r b] obtain x rest where
      x: "scalar_value x" and l: "length rest \<le> length r"
      and d: "decode_utf8 (b # r) = [x] \<or> decode_utf8 (b # r) = x # decode_utf8 rest"
      by blast
    from l Cons have "length rest < length bs" by simp
    with 1 have "\<forall>c\<in>set (decode_utf8 rest). scalar_value c" by blast
    with x d Cons show ?thesis by auto
  qed
qed


lemma byte_scalar: "c < 256 \<Longrightarrow> scalar_value c"
  by (simp add: scalar_value_def)

lemma unquote_runs_scalar:
  "\<forall>c\<in>set s. c < 256 \<Longrightarrow> \<forall>c\<in>set (unquote_runs s). scalar_value c"
proof (induction s rule: unquote_runs.induct)
  case 1
  then show ?case by simp
next
  case (2 c cs)
  show ?case
  proof (cases "c < 0x80")
    case True
    have "\<forall>x\<in>set (dropWhile (\<lambda>x. x < 0x80) (c # cs)). x < 256"
      using "2.prems" by (meson set_dropWhileD)
    with "2.IH"(1) True
    have "\<forall>x\<in>set (unquote_runs (dropWhile (\<lambda>x. x < 0x80) (c # cs))). scalar_value x"
      by blast
    moreover have "unquote_runs (c # cs) =
        decode_utf8 (unquote_to_bytes (takeWhile (\<lambda>x. x < 0x80) (c # cs))) @
        unquote_runs (dropWhile (\<lambda>x. x < 0x80) (c # cs))"
      using True by (subst unquote_runs.simps) simp
    ultimately show ?thesis
      using decode_utf8_scalar by (simp only: set_append) blast
  next
    case False
    have "\<forall>x\<in>set (dropWhile (\<lambda>x. \<not> x < 0x80) (c # cs)). x < 256"
      using "2.prems" by (meson set_dropWhileD)
    with "2.IH"(2) False
    have "\<forall>x\<in>set (unquote_runs (dropWhile (\<lambda>x. \<not> x < 0x80) (c # cs))). scalar_value x"
      by blast
    moreover have "\<forall>x\<in>set (takeWhile (\<lambda>x. \<not> x < 0x80) (c # cs)). scalar_value x"
      using "2.prems" byte_scalar by (meson set_takeWhileD)
    moreover have "unquote_runs (c # cs) =
        takeWhile (\<lambda>x. \<not> x < 0x80) (c # cs) @
        unquote_runs (dropWhile (\<lambda>x. \<not> x < 0x80) (c # cs))"
      using False by (subst unquote_runs.simps) simp
    ultimately show ?thesis
      by (simp only: set_append) blast
  qed
qed

lemma unquote_scalar:
  "\<forall>c\<in>set s. c < 256 \<Longrightarrow> \<forall>c\<in>set (unquote s). scalar_value c"
  using unquote_runs_scalar [of s] byte_scalar by (auto simp: unquote_def)

lemma str_replace_subset: "set (str_replace old new s) \<subseteq> set s \<union> set new"
proof (induction old new s rule: str_replace.induct)
  case (1 old new)
  then show ?case by auto
next
  case (2 old new c cs)
  have "set (drop (length old) (c # cs)) \<subseteq> set (c # cs)" by (rule set_drop_subset)
  with 2 show ?case by (auto split: if_splits)
qed

lemma split_on_nonempty: "split_on sep s \<noteq> []"
  by (induction s) (auto split: list.splits)

lemma split_on_subset: "p \<in> set (split_on sep s) \<Longrightarrow> set p \<subseteq> set s"
proof (induction s arbitrary: p)
  case Nil
  then show ?case by simp
next
  case (Cons c cs)
  show ?case
  proof (cases "c = sep")
    case True
    with Cons show ?thesis by auto
  next
    case False
    obtain q qs where q: "split_on sep cs = q # qs"
      using split_on_nonempty by (cases "split_on sep cs") auto
    with Cons.prems False have "p = c # q \<or> p \<in> set qs" by simp
    then show ?thesis using Cons.IH q by fastforce
  qed
qed

lemma split_first_subset: "p \<in> set (split_first sep s) \<Longrightarrow> set p \<subseteq> set s"
proof -
  have "set (tl (dropWhile (\<lambda>c. c \<noteq> sep) s)) \<subseteq> set s"
    by (metis (no_types) list.set_sel(2) set_dropWhileD subsetI tl_Nil)
  moreover have "set (takeWhile (\<lambda>c. c \<noteq> sep) s) \<subseteq> set s"
    by (meson set_takeWhileD subsetI)
  moreover assume "p \<in> set (split_first sep s)"
  ultimately show ?thesis by (auto simp: split_first_def split: if_splits)
qed

lemma parse_field_scalar:
  assumes "\<forall>c\<in>set f. c < 256" and "(n, v) \<in> set (parse_field f)"
  shows "\<forall>c\<in>set v. scalar_value c"
proof -
  from assms(2) obtain n0 v0 where s: "split_first 61 f = [n0, v0]"
    and v: "v = unquote (str_replace [43] [32] v0)"
    by (auto simp: parse_field_def split: if_splits list.splits) metis
  from s have "v0 \<in> set (split_first 61 f)" by simp
  then have "set v0 \<subseteq> set f" by (rule split_first_subset)
  with assms(1) have "\<forall>c\<in>set v0 \<union> set [32]. c < 256" by auto
  with str_replace_subset [of "[43]" "[32]" v0]
  have "\<forall>c\<in>set (str_replace [43] [32] v0). c < 256" by blast
  then show ?thesis unfolding v by (rule unquote_scalar)
qed

lemma parse_qsl_scalar:
  assumes "\<forall>c\<in>set qs. c < 256" and "(n, v) \<in> set (parse_qsl qs)"
  shows "\<forall>c\<in>set v. scalar_value c"
proof -
  from assms(2) obtain f where f: "f \<in> set (split_on 38 qs)" and nv: "(n, v) \<in> set (parse_field f)"
    by (auto simp: parse_qsl_def query_args_def split: if_splits)
  from f have "set f \<subseteq> set qs" by (rule split_on_subset)
  with assms(1) have "\<forall>c\<in>set f. c < 256" by auto
  then show ?thesis using nv by (rule parse_field_scalar)
qed

lemma map_of_dict_append:
  "map_of (dict_append d n v) k =
     (if k = n then Some ((case map_of d n of None \<Rightarrow> [] | Some vs \<Rightarrow> vs) @ [v]) else map_of d k)"
  by (induction d n v rule: dict_append.induct) auto

lemma map_of_parse_qs_loop:
  "map_of (parse_qs_loop pairs d) k =
     (case map_of d k of
        None \<Rightarrow> (if values_of k pairs = [] then None else Some (values_of k pairs))
      | Some vs \<Rightarrow> Some (vs @ values_of k pairs))"
proof (induction pairs d rule: parse_qs_loop.induct)
  case (1 d)
  then show ?case by (simp add: values_of_def split: option.splits)
next
  case (2 name v pairs d)
  then show ?case
    by (auto simp: values_of_def map_of_dict_append split: option.splits)
qed

lemma raw_query_values:
  "raw_query qs = Inr (case values_of (lit ''q'') (parse_qsl qs) of [] \<Rightarrow> [] | v # _ \<Rightarrow> v)"
  by (simp add: raw_query_def parse_qs_def map_of_parse_qs_loop split: list.splits)

lemma lit_bytes: "\<forall>c\<in>set (lit s). c < 256"
  by (auto simp: lit_def of_char_bound)

lemma raw_query_scalar:
  assumes "raw_query (lit s) = Inr raw"
  shows "\<forall>c\<in>set raw. scalar_value c"
proof (cases "values_of (lit ''q'') (parse_qsl (lit s))")
  case Nil
  with assms show ?thesis by (simp add: raw_query_values)
next
  case (Cons v vs)
  with assms have "raw = v" by (simp add: raw_query_values)
  moreover from Cons have "v \<in> set (values_of (lit ''q'') (parse_qsl (lit s)))" by simp
  then have "(lit ''q'', v) \<in> set (parse_qsl (lit s))" by (auto simp: values_of_def)
  then have "\<forall>c\<in>set v. scalar_value c" using lit_bytes parse_qsl_scalar by blast
  ultimately show ?thesis by simp
qed

lemma py_strip_subset: "set (py_strip s) \<subseteq> set s"
proof -
  have "set (dropWhile py_isspace (rev (dropWhile py_isspace s))) \<subseteq> set (rev (dropWhile py_isspace s))"
    by (meson set_dropWhileD subsetI)
  also have "\<dots> \<subseteq> set s" by (auto dest: set_dropWhileD)
  finally show ?thesis by (simp add: py_strip_def)
qed


lemma search_returns:
  assumes "\<forall>c\<in>set q. scalar_value c"
  shows "\<exists>resp. search get_json started finished q = Inr resp"
proof (cases "wikipedia_results get_json q 7")
  case (Inl e)
  from fallback_scalar [OF assms] obtain fs where "fallback_results q = Inr fs" ..
  with Inl show ?thesis by (simp add: search_def)
next
  case (Inr items)
  then show ?thesis by (simp add: search_def)
qed

lemma error_body:
  \<open>json_dumps float_repr (PDict [(lit ''error'', PStr (lit ''Query parameter 'q' is required.''))]) =
   lit ''{"error": "Query parameter 'q' is required."}''\<close>
  by (simp add: json_string_def escape_char_def lit_def)

lemma raw_query_missing:
  "\<forall>v. (lit ''q'', v) \<notin> set (parse_qsl qs) \<Longrightarrow> raw_query qs = Inr []"
proof -
  assume a: "\<forall>v. (lit ''q'', v) \<notin> set (parse_qsl qs)"
  have "values_of (lit ''q'') (parse_qsl qs) = []"
  proof (rule ccontr)
    assume "values_of (lit ''q'') (parse_qsl qs) \<noteq> []"
    then obtain v where "v \<in> set (values_of (lit ''q'') (parse_qsl qs))"
      by (cases "values_of (lit ''q'') (parse_qsl qs)") auto
    then have "(lit ''q'', v) \<in> set (parse_qsl qs)" by (auto simp: values_of_def)
    with a show False by blast
  qed
  then show ?thesis by (simp add: raw_query_values)
qed

subsection \<open>The \<^verbatim>\<open>/api/search\<close> endpoint\<close>

text \<open>
  C8. For every GET request to \<^verbatim>\<open>/api/search\<close>, the value \<^verbatim>\<open>do_GET\<close> reads for
  \<^verbatim>\<open>q\<close> is defined, and it is empty when no field gives \<^verbatim>\<open>q\<close> a value. When it is
  blank after trimming (whitespace only included), \<^verbatim>\<open>do_GET\<close> sends status 400 with the
  body \<^verbatim>\<open>{"error": "Query parameter 'q' is required."}\<close>, whatever the network and the
  clock would say: \<^verbatim>\<open>search\<close> is not consulted. Otherwise \<^verbatim>\<open>search\<close> returns a
  payload for the trimmed value and \<^verbatim>\<open>do_GET\<close> sends status 200 with that payload
  serialised as JSON.
\<close>

theorem api_search_response:
  \<open>\<exists>raw. raw_query (lit parsed_query) = Inr raw \<and>
     ((\<forall>v. (lit ''q'', v) \<notin> set (parse_qsl (lit parsed_query))) \<longrightarrow> raw = []) \<and>
     (py_strip raw = [] \<longrightarrow>
        do_GET get_json started finished ''/api/search'' parsed_query =
          Inr (Send_json (PDict [(lit ''error'', PStr (lit ''Query parameter 'q' is required.''))]) 400) \<and>
        status (send_json float_repr
                  (PDict [(lit ''error'', PStr (lit ''Query parameter 'q' is required.''))]) 400) = 400 \<and>
        body (send_json float_repr
                (PDict [(lit ''error'', PStr (lit ''Query parameter 'q' is required.''))]) 400) =
          lit ''{"error": "Query parameter 'q' is required."}'') \<and>
     (py_strip raw \<noteq> [] \<longrightarrow>
        (\<exists>payload. search get_json started finished (py_strip raw) = Inr payload \<and>
           do_GET get_json started finished ''/api/search'' parsed_query =
             Inr (Send_json payload 200) \<and>
           status (send_json float_repr payload 200) = 200 \<and>
           body (send_json float_repr payload 200) = json_dumps float_repr payload))\<close>
proof -
  obtain raw where raw: "raw_query (lit parsed_query) = Inr raw"
    by (simp add: raw_query_values)
  have m: "(\<forall>v. (lit ''q'', v) \<notin> set (parse_qsl (lit parsed_query))) \<longrightarrow> raw = []"
    using raw raw_query_missing [of "lit parsed_query"] by auto
  have blank: "do_GET get_json started finished ''/api/search'' parsed_query =
          Inr (Send_json (PDict [(lit ''error'', PStr (lit ''Query parameter 'q' is required.''))]) 400)"
    if "py_strip raw = []"
    using raw that by (simp add: do_GET_def)
  have ok: "\<exists>payload. search get_json started finished (py_strip raw) = Inr payload \<and>
           do_GET get_json started finished ''/api/search'' parsed_query =
             Inr (Send_json payload 200)"
    if "py_strip raw \<noteq> []"
  proof -
    have "\<forall>c\<in>set (py_strip raw). scalar_value c"
      using raw_query_scalar [OF raw] py_strip_subset [of raw] by blast
    from search_returns [OF this] obtain payload where
      "search get_json started finished (py_strip raw) = Inr payload" ..
    with raw that show ?thesis by (simp add: do_GET_def)
  qed
  from raw m blank ok show ?thesis
    by (simp add: send_json_def error_body del: json_dumps.simps)
qed

text \<open>A blank \<^verbatim>\<open>q\<close> and the query \<^verbatim>\<open>" rust "\<close>, with the upstream unreachable.\<close>

theorem api_search_response_witness:
  \<open>raw_query (lit ''q=+%20'') = Inr (lit ''  '') \<and>
   py_strip (lit ''  '') = [] \<and>
   do_GET offline 0 1 ''/api/search'' ''q=+%20'' =
     Inr (Send_json (PDict [(lit ''error'', PStr (lit ''Query parameter 'q' is required.''))]) 400) \<and>
   raw_query (lit ''q=%20rust+'') = Inr (lit '' rust '') \<and>
   py_strip (lit '' rust '') = lit ''rust'' \<and>
   (\<exists>payload. search offline 0 1 (lit ''rust'') = Inr payload \<and>
      do_GET offline 0 1 ''/api/search'' ''q=%20rust+'' = Inr (Send_json payload 200))\<close>
proof -
  have r1: "raw_query (lit ''q=+%20'') = Inr (lit ''  '')" by code_simp
  have s1: "py_strip (lit ''  '') = []" by code_simp
  have r2: "raw_query (lit ''q=%20rust+'') = Inr (lit '' rust '')" by code_simp
  have s2: "py_strip (lit '' rust '') = lit ''rust''" by code_simp
  have n: "lit ''rust'' \<noteq> []" by (simp add: lit_def)
  from api_search_response [of "''q=+%20''" offline 0 1 "\<lambda>w. []"] r1 s1
  have a: "do_GET offline 0 1 ''/api/search'' ''q=+%20'' =
     Inr (Send_json (PDict [(lit ''error'', PStr (lit ''Query parameter 'q' is required.''))]) 400)"
    by auto
  from api_search_response [of "''q=%20rust+''" offline 0 1 "\<lambda>w. []"] r2 s2 n
  have b: "\<exists>payload. search offline 0 1 (lit ''rust'') = Inr payload \<and>
      do_GET offline 0 1 ''/api/search'' ''q=%20rust+'' = Inr (Send_json payload 200)"
    by auto
  from r1 s1 a r2 s2 b show ?thesis by blast
qed

subsection \<open>A repeated \<^verbatim>\<open>q\<close> parameter\<close>

lemma parse_field_cases:
  "parse_field f =
     (case split_first 61 f of
        [n, v] \<Rightarrow>
          if v \<noteq> [] then [(unquote (str_replace [43] [32] n), unquote (str_replace [43] [32] v))]
          else []
      | _ \<Rightarrow> [])"
  by (simp add: parse_field_def split_first_def)

lemma first_nonblank_values:
  "(case values_of k (concat (map parse_field fs)) of [] \<Rightarrow> None | v # _ \<Rightarrow> Some v) =
   first_nonblank k fs"
proof (induction fs)
  case Nil
  then show ?case by (simp add: values_of_def)
next
  case (Cons f fs)
  then show ?case
    by (auto simp: values_of_def parse_field_cases split: list.splits)
qed

lemma raw_query_first_nonblank:
  "raw_query qs = Inr (case first_nonblank (lit ''q'') (query_args qs) of None \<Rightarrow> [] | Some v \<Rightarrow> v)"
proof -
  have "first_nonblank (lit ''q'') (query_args qs) =
        (case values_of (lit ''q'') (parse_qsl qs) of [] \<Rightarrow> None | v # _ \<Rightarrow> Some v)"
    by (simp add: first_nonblank_values parse_qsl_def)
  then show ?thesis
    by (simp add: raw_query_values split: list.splits)
qed

lemma split_on_append:
  "split_on sep (a @ sep # b) = split_on sep a @ split_on sep b"
proof (induction a)
  case Nil
  then show ?case by simp
next
  case (Cons c a)
  obtain p ps where "split_on sep a = p # ps"
    using split_on_nonempty by (cases "split_on sep a") auto
  with Cons show ?case by simp
qed

lemma first_nonblank_append:
  "first_nonblank k (xs @ ys) =
     (case first_nonblank k xs of Some v \<Rightarrow> Some v | None \<Rightarrow> first_nonblank k ys)"
  by (induction xs) (auto split: list.splits)

lemma first_nonblank_later_ignored:
  assumes "first_nonblank k (query_args a) = Some v"
  shows "first_nonblank k (query_args (a @ 38 # b)) = Some v"
proof -
  from assms have "a \<noteq> []" by (auto simp: query_args_def)
  then have "query_args (a @ 38 # b) = query_args a @ split_on 38 b"
    by (simp add: query_args_def split_on_append)
  with assms show ?thesis by (simp add: first_nonblank_append)
qed

lemma lit_append: "lit (a @ c # b) = lit a @ of_char c # lit b"
  by (simp add: lit_def)

text \<open>
  C10 (amended). The query \<^verbatim>\<open>do_GET\<close> uses is the value of the first field
  \<^verbatim>\<open>q=value\<close> whose value is not empty, and the empty string when there is none:
  fields with an empty value are skipped, and once a field has given \<^verbatim>\<open>q\<close> a value,
  whatever follows it in the query string is ignored.
\<close>

theorem first_nonblank_q_used:
  "raw_query qs =
     Inr (case first_nonblank (lit ''q'') (query_args qs) of None \<Rightarrow> [] | Some v \<Rightarrow> v) \<and>
   (first_nonblank (lit ''q'') (query_args (lit a)) = Some v \<longrightarrow>
      raw_query (lit (a @ CHR ''&'' # b)) = Inr v \<and>
      do_GET get_json started finished ''/api/search'' (a @ CHR ''&'' # b) =
      do_GET get_json started finished ''/api/search'' a)"
proof (intro conjI impI)
  show "raw_query qs =
     Inr (case first_nonblank (lit ''q'') (query_args qs) of None \<Rightarrow> [] | Some v \<Rightarrow> v)"
    by (rule raw_query_first_nonblank)
next
  assume v: "first_nonblank (lit ''q'') (query_args (lit a)) = Some v"
  have l: "lit (a @ CHR ''&'' # b) = lit a @ 38 # lit b"
    by (simp add: lit_append)
  from first_nonblank_later_ignored [OF v, of "lit b"]
  show r: "raw_query (lit (a @ CHR ''&'' # b)) = Inr v"
    by (simp add: raw_query_first_nonblank l)
  from v have "raw_query (lit a) = Inr v" by (simp add: raw_query_first_nonblank)
  with r show "do_GET get_json started finished ''/api/search'' (a @ CHR ''&'' # b) =
      do_GET get_json started finished ''/api/search'' a"
    by (simp add: do_GET_def)
qed

text \<open>The query string \<^verbatim>\<open>q=rust&q=go\<close>.\<close>

theorem first_nonblank_q_used_witness:
  "first_nonblank (lit ''q'') (query_args (lit ''q=rust'')) = Some (lit ''rust'') \<and>
   raw_query (lit ''q=rust&q=go'') = Inr (lit ''rust'') \<and>
   do_GET offline 0 1 ''/api/search'' ''q=rust&q=go'' = do_GET offline 0 1 ''/api/search'' ''q=rust''"
proof -
  have f: "first_nonblank (lit ''q'') (query_args (lit ''q=rust'')) = Some (lit ''rust'')"
    by code_simp
  from first_nonblank_q_used [of "[]" "''q=rust''" "lit ''rust''" "''q=go''" offline 0 1, THEN conjunct2] f
  show ?thesis by simp
qed

text \<open>
  C10 as stated fails: in \<^verbatim>\<open>q=&q=rust\<close> the first occurrence of \<^verbatim>\<open>q\<close> has the empty
  value, yet the query used is \<^verbatim>\<open>rust\<close>, the value of the second occurrence:
  \<^verbatim>\<open>parse_qs\<close> drops blank values.
\<close>

theorem blank_first_q_skipped:
  "first_occurrence (lit ''q'') (query_args (lit ''q=&q=rust'')) = Some [] \<and>
   raw_query (lit ''q=&q=rust'') = Inr (lit ''rust'')"
  by (rule conjI; code_simp)

end
